theory Spec2Isabelle
  imports Main "HOL-Library.Word" "HOL-Library.Char_ord" "HOL-Library.List_Lexorder"
begin

section \<open>The L0 sublevels engine of Pebble (internal/manifest/l0\_sublevels.go)\<close>

text \<open>
  Conventions of the embedding.
  \<^item> Go's \<open>int\<close> is \<open>int\<close> (indices and counts stay far from 64 bits); \<open>uint64\<close> is
    \<open>64 word\<close>, so sums of sizes wrap as in the source.
  \<^item> A \<open>[]byte\<close> user key is a \<open>string\<close>; the comparator \<open>Compare\<close> is a parameter.
  \<^item> A \<open>*FileMetadata\<close> is modelled by the record it points to. The engine writes the
    fields \<open>l0Index\<close>, \<open>minIntervalIndex\<close>, \<open>maxIntervalIndex\<close> and \<open>subLevel\<close> of
    a file once, in \<open>NewL0Sublevels\<close>, before the file is stored anywhere, and never
    writes a file afterwards; the flags \<open>Compacting\<close> and \<open>IsIntraL0Compacting\<close> are
    set by the caller and are carried by the files handed to the constructor (which never
    reads them).
  \<^item> A returned error and a panic (index out of range, division by zero, the explicit
    \<open>panic\<close>) are values \<open>Inl e\<close> of the result type \<open>error + 'a\<close>.
\<close>

type_synonym uint64 = "64 word"

datatype error =
    ErrBoundNotInIntervalKeys
  | ErrSublevelBeyondRange
  | ErrNoSeedFile
  | ErrSeedFileCompacting
  | PanicIndexOutOfRange
  | PanicDivideByZero
  | PanicExpectedNotCompacting

text \<open>Sequencing of fallible steps: the first error or panic ends the computation.\<close>

definition bindE :: "error + 'a \<Rightarrow> ('a \<Rightarrow> error + 'b) \<Rightarrow> error + 'b" where
  "bindE m k = (case m of Inl e \<Rightarrow> Inl e | Inr x \<Rightarrow> k x)"

text \<open>\<open>xs[i]\<close> in Go: a panic outside \<open>0 \<le> i < len(xs)\<close>.\<close>

definition elemAt :: "'a list \<Rightarrow> int \<Rightarrow> error + 'a" where
  "elemAt xs i = (if 0 \<le> i \<and> i < int (length xs) then Inr (xs ! nat i) else Inl PanicIndexOutOfRange)"

text \<open>\<open>xs[i] = v\<close> in Go, with the same panic.\<close>

definition setAt :: "'a list \<Rightarrow> int \<Rightarrow> 'a \<Rightarrow> error + 'a list" where
  "setAt xs i v = (if 0 \<le> i \<and> i < int (length xs) then Inr (xs[nat i := v]) else Inl PanicIndexOutOfRange)"

text \<open>A loop over a list whose body may fail.\<close>

fun foldE :: "('a \<Rightarrow> 's \<Rightarrow> error + 's) \<Rightarrow> 'a list \<Rightarrow> 's \<Rightarrow> error + 's" where
  "foldE f [] s = Inr s"
| "foldE f (x # xs) s = bindE (f x s) (foldE f xs)"

subsection \<open>Keys and file metadata\<close>

type_synonym Compare = "string \<Rightarrow> string \<Rightarrow> int"

record InternalKey =
  UserKey :: string
  Trailer :: uint64

text \<open>
  Modelled from the spec: \<open>base.InternalKeyRangeDeleteSentinel\<close>, the trailer that marks
  a file's largest key as exclusive, is a constant of package \<open>base\<close>, which is not among
  the sources. It is the largest sequence number (\<open>2^56 - 1\<close>) shifted by 8, with the
  kind byte of a range deletion (15).
\<close>

definition InternalKeyRangeDeleteSentinel :: uint64 where
  "InternalKeyRangeDeleteSentinel = (2 ^ 56 - 1) * 256 + 15"

record FileMetadata =
  FileNum :: nat
  Size :: uint64
  SmallestSeqNum :: uint64
  LargestSeqNum :: uint64
  Smallest :: InternalKey
  Largest :: InternalKey
  Compacting :: bool
  IsIntraL0Compacting :: bool
  l0Index :: int
  minIntervalIndex :: int
  maxIntervalIndex :: int
  subLevel :: int

subsection \<open>Bit sets\<close>

type_synonym bitSet = "bool list"

definition newBitSet :: "int \<Rightarrow> bitSet" where
  "newBitSet n = replicate (nat n) False"

definition markBit :: "bitSet \<Rightarrow> int \<Rightarrow> error + bitSet" where
  "markBit b i = setAt b i True"

text \<open>
  \<open>markBits(start, end)\<close> marks \<open>start, start+1, ..., end-1\<close> in this order and panics at
  the first index out of range.
\<close>

definition markBits :: "bitSet \<Rightarrow> int \<Rightarrow> int \<Rightarrow> error + bitSet" where
  "markBits b start end' = foldE (\<lambda>i b. markBit b i) [start..end' - 1] b"

definition clearAllBits :: "bitSet \<Rightarrow> bitSet" where
  "clearAllBits b = map (\<lambda>_. False) b"

subsection \<open>Compaction candidates\<close>

record L0CompactionFiles =
  Files :: "FileMetadata list"
  FilesIncluded :: bitSet
  seedIntervalStackDepthReduction :: int
  seedIntervalMinLevel :: int
  seedIntervalMaxLevel :: int
  seedInterval :: int
  fileBytes_lcf :: uint64
  minIntervalIndex_lcf :: int
  maxIntervalIndex_lcf :: int
  isIntraL0 :: bool
  earliestUnflushedSeqNum :: uint64
  preExtensionMinInterval :: int
  preExtensionMaxInterval :: int
  filesAdded :: "FileMetadata list"

text \<open>\<open>addFile\<close> (lines 697-712): a file already included is not added again.\<close>

definition addFile :: "L0CompactionFiles \<Rightarrow> FileMetadata \<Rightarrow> error + L0CompactionFiles" where
  "addFile l f =
     bindE (elemAt (FilesIncluded l) (l0Index f)) (\<lambda>included.
       if included then Inr l
       else bindE (markBit (FilesIncluded l) (l0Index f)) (\<lambda>b.
         let l1 = l\<lparr>FilesIncluded := b,
                     Files := Files l @ [f],
                     filesAdded := filesAdded l @ [f],
                     fileBytes_lcf := fileBytes_lcf l + Size f\<rparr>;
             l2 = (if minIntervalIndex f < minIntervalIndex_lcf l1
                   then l1\<lparr>minIntervalIndex_lcf := minIntervalIndex f\<rparr> else l1);
             l3 = (if maxIntervalIndex f > maxIntervalIndex_lcf l2
                   then l2\<lparr>maxIntervalIndex_lcf := maxIntervalIndex f\<rparr> else l2)
         in Inr l3))"

subsection \<open>The standard library's \<open>sort\<close> package\<close>

text \<open>
  \<open>sort.Search(n, f)\<close> is Go's binary search: it calls \<open>f\<close> only on \<open>0 \<le> h < n\<close>.
\<close>

function sort_Search_loop :: "(int \<Rightarrow> bool) \<Rightarrow> int \<Rightarrow> int \<Rightarrow> int" where
  "sort_Search_loop f i j =
     (if i < j then
        (if \<not> f ((i + j) div 2) then sort_Search_loop f ((i + j) div 2 + 1) j
         else sort_Search_loop f i ((i + j) div 2))
      else i)"
  by pat_completeness auto
termination
  by (relation "measure (\<lambda>(f, i, j). nat (j - i))") auto

declare sort_Search_loop.simps [simp del]

definition sort_Search :: "int \<Rightarrow> (int \<Rightarrow> bool) \<Rightarrow> int" where
  "sort_Search n f = sort_Search_loop f 0 n"

text \<open>
  \<open>sort.Sort\<close> sorts by the \<open>Less\<close> of its argument and is not stable. It is modelled by
  an insertion sort; the theorems below use only that the result is a sorted permutation.
\<close>

fun insertSorted :: "('a \<Rightarrow> 'a \<Rightarrow> bool) \<Rightarrow> 'a \<Rightarrow> 'a list \<Rightarrow> 'a list" where
  "insertSorted lt x [] = [x]"
| "insertSorted lt x (y # ys) =
     (if lt y x then y # insertSorted lt x ys else x # y # ys)"

definition sort_Sort :: "('a \<Rightarrow> 'a \<Rightarrow> bool) \<Rightarrow> 'a list \<Rightarrow> 'a list" where
  "sort_Sort lt xs = foldr (insertSorted lt) xs []"

subsection \<open>Interval keys (lines 49-95)\<close>

record intervalKey =
  key :: string
  isLargest :: bool

definition intervalKeyCompare :: "Compare \<Rightarrow> intervalKey \<Rightarrow> intervalKey \<Rightarrow> int" where
  "intervalKeyCompare cmp' a b =
     (let rv = cmp' (key a) (key b) in
      if rv = 0 then
        (if isLargest a \<and> \<not> isLargest b then 1
         else if \<not> isLargest a \<and> isLargest b then - 1
         else rv)
      else rv)"

text \<open>
  The loop of \<open>sortAndDedup\<close>: \<open>kj\<close> is \<open>keys[j]\<close>, the last key kept; a key that
  compares different from it is kept in turn.
\<close>

fun dedup :: "Compare \<Rightarrow> intervalKey \<Rightarrow> intervalKey list \<Rightarrow> intervalKey list" where
  "dedup cmp' kj [] = [kj]"
| "dedup cmp' kj (ki # rest) =
     (if intervalKeyCompare cmp' ki kj \<noteq> 0 then kj # dedup cmp' ki rest
      else dedup cmp' kj rest)"

definition sortAndDedup :: "intervalKey list \<Rightarrow> Compare \<Rightarrow> intervalKey list" where
  "sortAndDedup keys cmp' =
     (if length keys = 0 then []
      else case sort_Sort (\<lambda>a b. intervalKeyCompare cmp' a b < 0) keys of
             [] \<Rightarrow> []
           | k # ks \<Rightarrow> dedup cmp' k ks)"

subsection \<open>Intervals and the engine (lines 102-199)\<close>

record fileInterval =
  index :: int
  startKey :: intervalKey
  isBaseCompacting :: bool
  filesMinIntervalIndex :: int
  filesMaxIntervalIndex :: int
  intervalRangeIsBaseCompacting :: bool
  fileCount :: int
  compactingFileCount :: int
  files :: "FileMetadata list"
  estimatedBytes :: uint64

text \<open>
  The engine. \<open>formatKey\<close>, used only to print, is left out; \<open>levelMetadata\<close> is the
  sequence of all L0 files, oldest first.
\<close>

record L0Sublevels =
  Levels :: "FileMetadata list list"
  cmp :: Compare
  fileBytes :: uint64
  levelMetadata :: "FileMetadata list"
  orderedIntervals :: "fileInterval list"
  flushSplitUserKeys :: "string list"

text \<open>\<open>insertIntoSubLevel\<close> (lines 201-213).\<close>

definition insertIntoSubLevel :: "FileMetadata list \<Rightarrow> FileMetadata \<Rightarrow> FileMetadata list" where
  "insertIntoSubLevel fs f =
     (let idx = sort_Search (int (length fs))
                  (\<lambda>i. minIntervalIndex f < minIntervalIndex (fs ! nat i))
      in if idx = int (length fs) then fs @ [f]
         else take (nat idx) fs @ [f] @ drop (nat idx) fs)"

subsection \<open>Construction: \<open>NewL0Sublevels\<close> (lines 225-322)\<close>

text \<open>The two interval keys of a file (lines 234-238, 256 and 263).\<close>

definition smallestKey :: "FileMetadata \<Rightarrow> intervalKey" where
  "smallestKey f = \<lparr>key = UserKey (Smallest f), isLargest = False\<rparr>"

definition largestKey :: "FileMetadata \<Rightarrow> intervalKey" where
  "largestKey f =
     \<lparr>key = UserKey (Largest f),
      isLargest = (Trailer (Largest f) \<noteq> InternalKeyRangeDeleteSentinel)\<rparr>"

definition newInterval :: "nat \<times> intervalKey \<Rightarrow> fileInterval" where
  "newInterval p =
     \<lparr>index = int (fst p), startKey = snd p, isBaseCompacting = False,
      filesMinIntervalIndex = int (fst p), filesMaxIntervalIndex = int (fst p),
      intervalRangeIsBaseCompacting = False, fileCount = 0, compactingFileCount = 0,
      files = [], estimatedBytes = 0\<rparr>"

text \<open>
  The body of the first inner loop (lines 279-291) for interval \<open>i\<close>: the sublevel chosen so
  far rises above the last (youngest) file of the interval, and the interval's counters
  take the new file in.
\<close>

definition nextSubLevel :: "int \<Rightarrow> fileInterval \<Rightarrow> int" where
  "nextSubLevel sl iv =
     (if length (files iv) > 0 \<and> sl \<le> subLevel (last (files iv))
      then subLevel (last (files iv)) + 1 else sl)"

definition countFile :: "FileMetadata \<Rightarrow> uint64 \<Rightarrow> fileInterval \<Rightarrow> fileInterval" where
  "countFile f interpolatedBytes iv =
     (let iv1 = iv\<lparr>fileCount := fileCount iv + 1,
                    estimatedBytes := estimatedBytes iv + interpolatedBytes\<rparr>;
          iv2 = (if minIntervalIndex f < filesMinIntervalIndex iv1
                 then iv1\<lparr>filesMinIntervalIndex := minIntervalIndex f\<rparr> else iv1)
      in if maxIntervalIndex f > filesMaxIntervalIndex iv2
         then iv2\<lparr>filesMaxIntervalIndex := maxIntervalIndex f\<rparr> else iv2)"

definition countLoopBody ::
  "FileMetadata \<Rightarrow> uint64 \<Rightarrow> int \<Rightarrow> int \<times> fileInterval list \<Rightarrow> error + int \<times> fileInterval list" where
  "countLoopBody f interpolatedBytes i st =
     bindE (elemAt (snd st) i) (\<lambda>iv.
     bindE (setAt (snd st) i (countFile f interpolatedBytes iv)) (\<lambda>ivs.
       Inr (nextSubLevel (fst st) iv, ivs)))"

text \<open>The body of the second inner loop (lines 293-296).\<close>

definition appendLoopBody :: "FileMetadata \<Rightarrow> int \<Rightarrow> fileInterval list \<Rightarrow> error + fileInterval list" where
  "appendLoopBody f i ivs =
     bindE (elemAt ivs i) (\<lambda>iv. setAt ivs i (iv\<lparr>files := files iv @ [f]\<rparr>))"

text \<open>Lines 298-305: the file opens a new sublevel or is inserted into its sublevel.\<close>

definition placeInLevels :: "FileMetadata list list \<Rightarrow> FileMetadata \<Rightarrow> error + FileMetadata list list" where
  "placeInLevels lvls f =
     (if subLevel f > int (length lvls) then Inl ErrSublevelBeyondRange
      else if subLevel f = int (length lvls) then Inr (lvls @ [[f]])
      else bindE (elemAt lvls (subLevel f)) (\<lambda>lv. setAt lvls (subLevel f) (insertIntoSubLevel lv f)))"

text \<open>
  One iteration of the loop over the files (lines 253-306). The file's sublevel is known
  after the first inner loop; since the intervals hold the file by pointer, the file they
  hold has it, although the assignment (line 297) comes after the second inner loop. The
  conversion \<open>uint64(...)\<close> of the width wraps, and a width of zero makes the division
  panic.
\<close>

definition addL0File :: "Compare \<Rightarrow> intervalKey list \<Rightarrow> FileMetadata \<Rightarrow> L0Sublevels \<Rightarrow> error + L0Sublevels" where
  "addL0File cmp' keys f s =
     (let n = int (length keys);
          minI = sort_Search n (\<lambda>i. intervalKeyCompare cmp' (smallestKey f) (keys ! nat i) \<le> 0)
      in if minI = n then Inl ErrBoundNotInIntervalKeys
      else
        let maxS = sort_Search n (\<lambda>i. intervalKeyCompare cmp' (largestKey f) (keys ! nat i) \<le> 0)
        in if maxS = n then Inl ErrBoundNotInIntervalKeys
        else
          let maxI = maxS - 1;
              f1 = f\<lparr>minIntervalIndex := minI, maxIntervalIndex := maxI\<rparr>;
              width = (word_of_int (maxI - minI + 1) :: uint64)
          in if width = 0 then Inl PanicDivideByZero
          else
            let interpolatedBytes = Size f1 div width in
            bindE (foldE (countLoopBody f1 interpolatedBytes) [minI..maxI] (0, orderedIntervals s))
              (\<lambda>st.
                let f2 = f1\<lparr>subLevel := fst st\<rparr> in
                bindE (foldE (appendLoopBody f2) [minI..maxI] (snd st)) (\<lambda>ivs.
                bindE (placeInLevels (Levels s) f2) (\<lambda>lvls.
                  Inr (s\<lparr>fileBytes := fileBytes s + Size f2,
                         orderedIntervals := ivs,
                         Levels := lvls,
                         levelMetadata := levelMetadata s @ [f2]\<rparr>)))))"

text \<open>
  The flush split keys (lines 307-320). \<open>limit\<close> is \<open>flushSplitMaxBytes\<close> after its
  multiplication by the number of sublevels, an \<open>int64\<close>: it is compared with zero as a
  signed number and with the accumulated bytes as an unsigned one.
\<close>

fun flushSplitLoop :: "uint64 \<Rightarrow> fileInterval list \<Rightarrow> uint64 \<Rightarrow> string list \<Rightarrow> string list" where
  "flushSplitLoop limit [] cumulativeBytes ks = ks"
| "flushSplitLoop limit (iv # ivs) cumulativeBytes ks =
     (if 0 < sint limit \<and> cumulativeBytes > limit \<and>
         (length ks = 0 \<or> key (startKey iv) \<noteq> last ks)
      then flushSplitLoop limit ivs (0 + estimatedBytes iv) (ks @ [key (startKey iv)])
      else flushSplitLoop limit ivs (cumulativeBytes + estimatedBytes iv) ks)"

text \<open>
  \<open>NewL0Sublevels\<close>. The first loop numbers the files (\<open>l0Index\<close>) and collects their keys;
  \<open>levelMetadata\<close> is filled as the files are placed, which no step of the construction
  reads.
\<close>

definition NewL0Sublevels :: "FileMetadata list \<Rightarrow> Compare \<Rightarrow> uint64 \<Rightarrow> error + L0Sublevels" where
  "NewL0Sublevels lm cmp' flushSplitMaxBytes =
     (let fs = map (\<lambda>p. (snd p)\<lparr>l0Index := int (fst p)\<rparr>) (enumerate 0 lm);
          keys = sortAndDedup (concat (map (\<lambda>f. [smallestKey f, largestKey f]) fs)) cmp';
          s0 = \<lparr>Levels = [], cmp = cmp', fileBytes = 0, levelMetadata = [],
                orderedIntervals = map newInterval (enumerate 0 keys),
                flushSplitUserKeys = []\<rparr>
      in bindE (foldE (addL0File cmp' keys) fs s0) (\<lambda>s.
           Inr (s\<lparr>flushSplitUserKeys :=
                    flushSplitLoop (flushSplitMaxBytes * word_of_int (int (length (Levels s))))
                      (orderedIntervals s) 0 []\<rparr>)))"

subsection \<open>Compaction state: \<open>InitCompactingFileInfo\<close> and \<open>UpdateStateForStartedCompaction\<close>\<close>

record L0Compaction =
  Smallest_l0c :: InternalKey
  Largest_l0c :: InternalKey
  IsIntraL0_l0c :: bool

text \<open>Lines 336-340: every interval's compaction state is reset.\<close>

definition resetInterval :: "fileInterval \<Rightarrow> fileInterval" where
  "resetInterval iv =
     iv\<lparr>compactingFileCount := 0, isBaseCompacting := False,
        intervalRangeIsBaseCompacting := False\<rparr>"

text \<open>Lines 343-356: the intervals of a compacting file.\<close>

definition markCompactingBody :: "FileMetadata \<Rightarrow> int \<Rightarrow> fileInterval list \<Rightarrow> error + fileInterval list" where
  "markCompactingBody f i ivs =
     bindE (elemAt ivs i) (\<lambda>iv.
       let iv1 = iv\<lparr>compactingFileCount := compactingFileCount iv + 1\<rparr>;
           iv2 = (if \<not> IsIntraL0Compacting f then iv1\<lparr>isBaseCompacting := True\<rparr> else iv1)
       in setAt ivs i iv2)"

definition markCompactingFile :: "FileMetadata \<Rightarrow> fileInterval list \<Rightarrow> error + fileInterval list" where
  "markCompactingFile f ivs =
     (if \<not> Compacting f then Inr ivs
      else foldE (markCompactingBody f) [minIntervalIndex f..maxIntervalIndex f] ivs)"

text \<open>
  Lines 363-378: the intervals in the key range of a compaction in progress. The loop is
  guarded by \<open>i < len(s.orderedIntervals)\<close> and \<open>start\<close> is not negative.
\<close>

definition markInProgress :: "Compare \<Rightarrow> L0Compaction \<Rightarrow> fileInterval list \<Rightarrow> fileInterval list" where
  "markInProgress cmp' c ivs =
     (let startIK = \<lparr>key = UserKey (Smallest_l0c c), isLargest = False\<rparr>;
          endIK = \<lparr>key = UserKey (Largest_l0c c),
                   isLargest = (Trailer (Largest_l0c c) \<noteq> InternalKeyRangeDeleteSentinel)\<rparr>;
          n = int (length ivs);
          start = sort_Search n (\<lambda>i. intervalKeyCompare cmp' (startKey (ivs ! nat i)) startIK \<ge> 0);
          end' = sort_Search n (\<lambda>i. intervalKeyCompare cmp' (startKey (ivs ! nat i)) endIK \<ge> 0)
      in fold (\<lambda>i ivs'. if \<not> IsIntraL0_l0c c
                          then ivs'[nat i := (ivs' ! nat i)\<lparr>isBaseCompacting := True\<rparr>]
                          else ivs')
           [start..min end' n - 1] ivs)"

text \<open>Lines 380-393: the last loop, with its running lower bound \<open>min\<close>.\<close>

definition markRangeBody :: "int \<Rightarrow> int \<times> fileInterval list \<Rightarrow> error + int \<times> fileInterval list" where
  "markRangeBody j st =
     bindE (elemAt (snd st) j) (\<lambda>ivj.
     bindE (setAt (snd st) j (ivj\<lparr>intervalRangeIsBaseCompacting := True\<rparr>)) (\<lambda>ivs.
       Inr (j, ivs)))"

definition propagateBody :: "int \<Rightarrow> int \<times> fileInterval list \<Rightarrow> error + int \<times> fileInterval list" where
  "propagateBody i st =
     bindE (elemAt (snd st) i) (\<lambda>iv.
       if isBaseCompacting iv then
         (let minIndex = (if filesMinIntervalIndex iv < fst st then fst st
                          else filesMinIntervalIndex iv)
          in foldE markRangeBody [minIndex..filesMaxIntervalIndex iv] st)
       else Inr st)"

definition InitCompactingFileInfo :: "L0Sublevels \<Rightarrow> L0Compaction list \<Rightarrow> error + L0Sublevels" where
  "InitCompactingFileInfo s inProgress =
     (let ivs0 = map resetInterval (orderedIntervals s) in
      bindE (foldE markCompactingFile (levelMetadata s) ivs0) (\<lambda>ivs1.
        let ivs2 = fold (markInProgress (cmp s)) inProgress ivs1 in
        bindE (foldE propagateBody [0..int (length ivs2) - 1] (0, ivs2)) (\<lambda>st.
          Inr (s\<lparr>orderedIntervals := snd st\<rparr>))))"

text \<open>
  \<open>UpdateStateForStartedCompaction\<close> (lines 628-656). \<open>inputs\<close> is a list of level slices;
  the state of the first loop is the intervals with the bounds \<open>minIntervalIndex\<close> and
  \<open>maxIntervalIndex\<close> of the inputs.
\<close>

definition countCompactingBody :: "int \<Rightarrow> fileInterval list \<Rightarrow> error + fileInterval list" where
  "countCompactingBody i ivs =
     bindE (elemAt ivs i) (\<lambda>iv.
       setAt ivs i (iv\<lparr>compactingFileCount := compactingFileCount iv + 1\<rparr>))"

definition startedFile ::
  "FileMetadata \<Rightarrow> fileInterval list \<times> int \<times> int \<Rightarrow> error + fileInterval list \<times> int \<times> int" where
  "startedFile f st =
     (case st of (ivs, minII, maxII) \<Rightarrow>
        bindE (foldE countCompactingBody [minIntervalIndex f..maxIntervalIndex f] ivs) (\<lambda>ivs'.
          Inr (ivs',
               (if minIntervalIndex f < minII \<or> minII = - 1 then minIntervalIndex f else minII),
               (if maxIntervalIndex f > maxII then maxIntervalIndex f else maxII))))"

definition startedBaseBody :: "int \<Rightarrow> fileInterval list \<Rightarrow> error + fileInterval list" where
  "startedBaseBody i ivs =
     bindE (elemAt ivs i) (\<lambda>iv.
     bindE (setAt ivs i (iv\<lparr>isBaseCompacting := True\<rparr>)) (\<lambda>ivs1.
       foldE (\<lambda>j ivs2. bindE (elemAt ivs2 j) (\<lambda>ivj.
                 setAt ivs2 j (ivj\<lparr>intervalRangeIsBaseCompacting := True\<rparr>)))
         [filesMinIntervalIndex iv..filesMaxIntervalIndex iv] ivs1))"

definition UpdateStateForStartedCompaction ::
  "L0Sublevels \<Rightarrow> FileMetadata list list \<Rightarrow> bool \<Rightarrow> error + L0Sublevels" where
  "UpdateStateForStartedCompaction s inputs isBase =
     bindE (foldE startedFile (concat inputs) (orderedIntervals s, - 1, 0)) (\<lambda>st.
       case st of (ivs, minII, maxII) \<Rightarrow>
         if isBase then
           bindE (foldE startedBaseBody [minII..maxII] ivs) (\<lambda>ivs'.
             Inr (s\<lparr>orderedIntervals := ivs'\<rparr>))
         else Inr (s\<lparr>orderedIntervals := ivs\<rparr>))"

subsection \<open>Queries (lines 489-525)\<close>

definition ReadAmplification :: "L0Sublevels \<Rightarrow> int" where
  "ReadAmplification s =
     fold (\<lambda>iv amp. if amp < fileCount iv then fileCount iv else amp) (orderedIntervals s) 0"

definition FlushSplitKeys :: "L0Sublevels \<Rightarrow> string list" where
  "FlushSplitKeys s = flushSplitUserKeys s"

definition MaxDepthAfterOngoingCompactions :: "L0Sublevels \<Rightarrow> int" where
  "MaxDepthAfterOngoingCompactions s =
     fold (\<lambda>iv depth. if depth < fileCount iv - compactingFileCount iv
                       then fileCount iv - compactingFileCount iv else depth)
       (orderedIntervals s) 0"

subsection \<open>\<open>extendFiles\<close> (lines 1065-1091)\<close>

text \<open>
  The loop of \<open>extendFiles\<close> over the files of the sublevel from the position found by the
  binary search. The candidate is changed in place, so the files added before a conflict
  stay in it; the result pairs the returned \<open>bool\<close> with the candidate.
\<close>

fun extendFilesLoop ::
  "uint64 \<Rightarrow> FileMetadata list \<Rightarrow> L0CompactionFiles \<Rightarrow> error + bool \<times> L0CompactionFiles" where
  "extendFilesLoop eusn [] cFiles = Inr (True, cFiles)"
| "extendFilesLoop eusn (f # fs) cFiles =
     (if minIntervalIndex f > maxIntervalIndex_lcf cFiles then Inr (True, cFiles)
      else if Compacting f then Inr (False, cFiles)
      else if LargestSeqNum f \<ge> eusn then extendFilesLoop eusn fs cFiles
      else case addFile cFiles f of
             Inl e \<Rightarrow> Inl e
           | Inr cFiles' \<Rightarrow> extendFilesLoop eusn fs cFiles')"

definition extendFiles ::
  "L0Sublevels \<Rightarrow> int \<Rightarrow> uint64 \<Rightarrow> L0CompactionFiles \<Rightarrow> error + bool \<times> L0CompactionFiles" where
  "extendFiles s sl eusn cFiles =
     bindE (elemAt (Levels s) sl) (\<lambda>lv.
       let idx = sort_Search (int (length lv))
                   (\<lambda>i. maxIntervalIndex (lv ! nat i) \<ge> minIntervalIndex_lcf cFiles)
       in extendFilesLoop eusn (drop (nat idx) lv) cFiles)"

subsection \<open>The growth cap shared by both pickers (lines 1042-1048 and 1239-1245)\<close>

text \<open>
  \<open>float64(c.fileBytes)/float64(lastCandidate.fileBytes) > 1.5\<close> is modelled with exact
  arithmetic, \<open>2 * c > 3 * l\<close>, which also gives the source's answer when the divisor is
  zero (\<open>+Inf\<close> for \<open>c > 0\<close>; the test is reached only with \<open>c > 100 MiB\<close>). The
  rounding of \<open>float64\<close> is not modelled; no theorem below depends on the outcome of
  this test.
\<close>

definition growthRatioExceeded :: "uint64 \<Rightarrow> uint64 \<Rightarrow> bool" where
  "growthRatioExceeded c l = (2 * uint c > 3 * uint l)"

definition growthCapReached :: "int \<Rightarrow> L0CompactionFiles \<Rightarrow> L0CompactionFiles \<Rightarrow> bool" where
  "growthCapReached minCompactionDepth lastCandidate c =
     (seedIntervalStackDepthReduction lastCandidate \<ge> minCompactionDepth \<and>
      fileBytes_lcf c > 104857600 \<and>
      (growthRatioExceeded (fileBytes_lcf c) (fileBytes_lcf lastCandidate) \<or>
       fileBytes_lcf c > 524288000))"

text \<open>
  Lines 1052-1055 and 1249-1252: the bit set of the candidate returned is recomputed from
  its files. (\<open>*lastCandidate = *c\<close> copies the slice header of \<open>FilesIncluded\<close>, so the
  bits of \<open>lastCandidate\<close> before this step are those of \<open>c\<close>; they are all cleared
  here, so the model may keep the bits of the moment of the copy.)
\<close>

definition remarkFiles :: "L0CompactionFiles \<Rightarrow> error + L0CompactionFiles" where
  "remarkFiles l =
     bindE (foldE (\<lambda>f b. markBit b (l0Index f)) (Files l) (clearAllBits (FilesIncluded l)))
       (\<lambda>b. Inr (l\<lparr>FilesIncluded := b\<rparr>))"

subsection \<open>\<open>baseCompactionUsingSeed\<close> (lines 969-1059)\<close>

text \<open>The loop \<open>for currLevel := sl - 1; currLevel >= 0; currLevel--\<close> (lines 1018-1024).\<close>

function extendFilesDown ::
  "L0Sublevels \<Rightarrow> int \<Rightarrow> L0CompactionFiles \<Rightarrow> error + bool \<times> L0CompactionFiles" where
  "extendFilesDown s currLevel c =
     (if currLevel \<ge> 0 then
        (case extendFiles s currLevel (- 1) c of
           Inl e \<Rightarrow> Inl e
         | Inr r \<Rightarrow> if \<not> fst r then Inr (False, snd r)
                    else extendFilesDown s (currLevel - 1) (snd r))
      else Inr (True, c))"
  by pat_completeness auto
termination
  by (relation "measure (\<lambda>(s, currLevel, c). nat (currLevel + 1))") auto

declare extendFilesDown.simps [simp del]

text \<open>
  The main loop (lines 988-1050) over the files of the seed interval from index \<open>i\<close> on;
  \<open>lastCandidate\<close> is \<open>None\<close> for \<open>nil\<close>. \<open>math.MaxUint64\<close> is the word
  \<open>- 1\<close>.
\<close>

fun baseSeedLoop ::
  "L0Sublevels \<Rightarrow> int \<Rightarrow> FileMetadata list \<Rightarrow> L0CompactionFiles \<Rightarrow> L0CompactionFiles option
    \<Rightarrow> error + L0CompactionFiles option" where
  "baseSeedLoop s minCompactionDepth [] c lastCandidate = Inr lastCandidate"
| "baseSeedLoop s minCompactionDepth (f2 # fs) c lastCandidate =
     (case addFile (c\<lparr>seedIntervalStackDepthReduction := seedIntervalStackDepthReduction c + 1,
                      seedIntervalMaxLevel := subLevel f2\<rparr>) f2 of
        Inl e \<Rightarrow> Inl e
      | Inr c1 \<Rightarrow>
         (case extendFilesDown s (subLevel f2 - 1) c1 of
            Inl e \<Rightarrow> Inl e
          | Inr r \<Rightarrow>
             if \<not> fst r then Inr lastCandidate
             else (case lastCandidate of
                     None \<Rightarrow> baseSeedLoop s minCompactionDepth fs (snd r) (Some (snd r))
                   | Some l \<Rightarrow>
                       if growthCapReached minCompactionDepth l (snd r) then Inr lastCandidate
                       else baseSeedLoop s minCompactionDepth fs (snd r) (Some (snd r)))))"

definition baseCompactionUsingSeed ::
  "L0Sublevels \<Rightarrow> FileMetadata \<Rightarrow> int \<Rightarrow> int \<Rightarrow> error + L0CompactionFiles option" where
  "baseCompactionUsingSeed s f intervalIndex minCompactionDepth =
     bindE (addFile
              \<lparr>Files = [], FilesIncluded = newBitSet (int (length (levelMetadata s))),
               seedIntervalStackDepthReduction = 0, seedIntervalMinLevel = 0,
               seedIntervalMaxLevel = 0, seedInterval = intervalIndex, fileBytes_lcf = 0,
               minIntervalIndex_lcf = minIntervalIndex f,
               maxIntervalIndex_lcf = maxIntervalIndex f,
               isIntraL0 = False, earliestUnflushedSeqNum = 0,
               preExtensionMinInterval = 0, preExtensionMaxInterval = 0, filesAdded = []\<rparr> f)
       (\<lambda>c.
     bindE (elemAt (orderedIntervals s) intervalIndex) (\<lambda>iv.
     bindE (baseSeedLoop s minCompactionDepth (files iv) c None) (\<lambda>lastCandidate.
       case lastCandidate of
         None \<Rightarrow> Inr None
       | Some l \<Rightarrow>
           if seedIntervalStackDepthReduction l \<ge> minCompactionDepth
           then bindE (remarkFiles l) (\<lambda>l'. Inr (Some l'))
           else Inr None)))"

subsection \<open>\<open>PickBaseCompaction\<close> (lines 869-965)\<close>

record intervalAndScore =
  interval :: int
  score :: int

text \<open>Lines 884-900: the intervals deep enough and not compacting to Lbase, by decreasing score.\<close>

definition baseScore :: "int \<Rightarrow> int \<Rightarrow> nat \<times> fileInterval \<Rightarrow> intervalAndScore list" where
  "baseScore minCompactionDepth sublevelCount p =
     (let depth = fileCount (snd p) - compactingFileCount (snd p) in
      if isBaseCompacting (snd p) \<or> minCompactionDepth > depth then []
      else if intervalRangeIsBaseCompacting (snd p)
      then [\<lparr>interval = int (fst p), score = depth\<rparr>]
      else [\<lparr>interval = int (fst p), score = depth + sublevelCount\<rparr>])"

definition baseScoredIntervals :: "L0Sublevels \<Rightarrow> int \<Rightarrow> intervalAndScore list" where
  "baseScoredIntervals s minCompactionDepth =
     sort_Sort (\<lambda>a b. score a > score b)
       (concat (map (baseScore minCompactionDepth (int (length (Levels s))))
                  (enumerate 0 (orderedIntervals s))))"

text \<open>
  Modelled from the spec: \<open>LevelSlice\<close> and \<open>LevelIterator.SeekGE\<close> (the spec's
  \<open>seekGE\<close>) are not among the sources. The Lbase files are a list in key order, and
  \<open>SeekGE\<close> positions the iterator at the first file whose largest user key is not
  before the key; the result here is the files from that position on.
\<close>

definition SeekGE :: "Compare \<Rightarrow> string \<Rightarrow> FileMetadata list \<Rightarrow> FileMetadata list" where
  "SeekGE cmp' k ms = dropWhile (\<lambda>m. cmp' (UserKey (Largest m)) k < 0) ms"

text \<open>
  Lines 949-957: the loop over the Lbase files from the position sought; the result is
  \<open>baseCompacting\<close>.
\<close>

fun baseCompactingLoop :: "L0Sublevels \<Rightarrow> L0CompactionFiles \<Rightarrow> FileMetadata list \<Rightarrow> error + bool" where
  "baseCompactingLoop s c [] = Inr False"
| "baseCompactingLoop s c (m # ms) =
     (case elemAt (orderedIntervals s) (maxIntervalIndex_lcf c + 1) of
        Inl e \<Rightarrow> Inl e
      | Inr iv \<Rightarrow>
         (let r = cmp s (UserKey (Smallest m)) (key (startKey iv)) in
          if r > 0 \<or> (r = 0 \<and> \<not> isLargest (startKey iv)) then Inr False
          else if Compacting m then Inr True
          else baseCompactingLoop s c ms))"

definition lbaseIsCompacting :: "L0Sublevels \<Rightarrow> FileMetadata list \<Rightarrow> L0CompactionFiles \<Rightarrow> error + bool" where
  "lbaseIsCompacting s baseFiles c =
     bindE (elemAt (orderedIntervals s) (minIntervalIndex_lcf c)) (\<lambda>iv.
       baseCompactingLoop s c (SeekGE (cmp s) (key (startKey iv)) baseFiles))"

text \<open>
  The loop over the scored intervals (lines 906-963). A list holds no \<open>nil\<close>, so the test
  \<open>f == nil\<close> (line 921), which comes after \<open>interval.files[0]\<close> and the use of \<open>f\<close>,
  has no branch here: an interval without files panics at \<open>interval.files[0]\<close>.
\<close>

fun pickBaseLoop ::
  "L0Sublevels \<Rightarrow> int \<Rightarrow> FileMetadata list \<Rightarrow> intervalAndScore list \<Rightarrow> bitSet
    \<Rightarrow> error + L0CompactionFiles option" where
  "pickBaseLoop s minCompactionDepth baseFiles [] considered = Inr None"
| "pickBaseLoop s minCompactionDepth baseFiles (si # rest) considered =
     (case elemAt (orderedIntervals s) (interval si) of
        Inl e \<Rightarrow> Inl e
      | Inr iv \<Rightarrow>
     (case elemAt considered (index iv) of
        Inl e \<Rightarrow> Inl e
      | Inr seen \<Rightarrow>
     if seen then pickBaseLoop s minCompactionDepth baseFiles rest considered
     else
     (case elemAt (files iv) 0 of
        Inl e \<Rightarrow> Inl e
      | Inr f \<Rightarrow>
     (case markBits considered (minIntervalIndex f) (maxIntervalIndex f + 1) of
        Inl e \<Rightarrow> Inl e
      | Inr considered' \<Rightarrow>
     if Compacting f then
       (if IsIntraL0Compacting f
        then pickBaseLoop s minCompactionDepth baseFiles rest considered'
        else Inl ErrSeedFileCompacting)
     else
     (case baseCompactionUsingSeed s f (index iv) minCompactionDepth of
        Inl e \<Rightarrow> Inl e
      | Inr None \<Rightarrow> pickBaseLoop s minCompactionDepth baseFiles rest considered'
      | Inr (Some c) \<Rightarrow>
         (case lbaseIsCompacting s baseFiles c of
            Inl e \<Rightarrow> Inl e
          | Inr baseCompacting \<Rightarrow>
             if baseCompacting
             then pickBaseLoop s minCompactionDepth baseFiles rest considered'
             else Inr (Some c)))))))"

definition PickBaseCompaction ::
  "L0Sublevels \<Rightarrow> int \<Rightarrow> FileMetadata list \<Rightarrow> error + L0CompactionFiles option" where
  "PickBaseCompaction s minCompactionDepth baseFiles =
     pickBaseLoop s minCompactionDepth baseFiles (baseScoredIntervals s minCompactionDepth)
       (newBitSet (int (length (orderedIntervals s))))"

subsection \<open>\<open>extendCandidateToRectangle\<close> (lines 1383-1540)\<close>

text \<open>
  Lines 1425-1449: the scan of a sublevel from the position found by the binary search.
  The list holds the files with their indices; the state is \<open>minIntervalIndex\<close>,
  \<open>maxIntervalIndex\<close>, \<open>firstIndex\<close> and \<open>lastIndex\<close>.
\<close>

fun rectScan ::
  "(nat \<times> FileMetadata) list \<Rightarrow> int \<Rightarrow> int \<Rightarrow> int \<Rightarrow> int \<Rightarrow> int \<times> int \<times> int \<times> int" where
  "rectScan [] minI maxI firstIndex lastIndex = (minI, maxI, firstIndex, lastIndex)"
| "rectScan (p # ps) minI maxI firstIndex lastIndex =
     (if minIntervalIndex (snd p) > maxI then (minI, maxI, firstIndex, lastIndex)
      else
        let leftOut = minIntervalIndex (snd p) < minI;
            minI' = (if leftOut then maxIntervalIndex (snd p) + 1 else minI);
            rightOut = maxIntervalIndex (snd p) > maxI;
            maxI' = (if rightOut then minIntervalIndex (snd p) - 1 else maxI)
        in if leftOut \<or> rightOut then rectScan ps minI' maxI' firstIndex lastIndex
           else rectScan ps minI' maxI'
                  (if firstIndex = - 1 then int (fst p) else firstIndex) (int (fst p)))"

text \<open>
  Lines 1471-1510: the choice of a run of files that are not compacting among the files
  \<open>firstIndex .. lastIndex\<close>.
\<close>

record runState =
  nonCompactingFirst :: int
  currentRunHasAlreadyPickedFiles :: bool
  candidateNonCompactingFirst :: int
  candidateNonCompactingLast :: int
  candidateHasAlreadyPickedFiles :: bool

definition runBetter :: "runState \<Rightarrow> int \<Rightarrow> bool" where
  "runBetter r last' =
     (\<not> candidateHasAlreadyPickedFiles r \<and>
      (candidateNonCompactingFirst r = - 1 \<or> currentRunHasAlreadyPickedFiles r \<or>
       last' - nonCompactingFirst r > candidateNonCompactingLast r - candidateNonCompactingFirst r))"

fun runLoop :: "bitSet \<Rightarrow> (nat \<times> FileMetadata) list \<Rightarrow> runState \<Rightarrow> error + runState" where
  "runLoop included [] r = Inr r"
| "runLoop included (p # ps) r =
     (if Compacting (snd p) then
        runLoop included ps
          ((if nonCompactingFirst r \<noteq> - 1 \<and> runBetter r (int (fst p) - 1)
            then r\<lparr>candidateNonCompactingFirst := nonCompactingFirst r,
                   candidateNonCompactingLast := int (fst p) - 1,
                   candidateHasAlreadyPickedFiles := currentRunHasAlreadyPickedFiles r\<rparr>
            else r)
           \<lparr>nonCompactingFirst := - 1, currentRunHasAlreadyPickedFiles := False\<rparr>)
      else
        (case elemAt included (l0Index (snd p)) of
           Inl e \<Rightarrow> Inl e
         | Inr picked \<Rightarrow>
            runLoop included ps
              ((if nonCompactingFirst r = - 1 then r\<lparr>nonCompactingFirst := int (fst p)\<rparr> else r)
               \<lparr>currentRunHasAlreadyPickedFiles :=
                   (if picked then True else currentRunHasAlreadyPickedFiles r)\<rparr>)))"

definition runFinish :: "runState \<Rightarrow> int \<Rightarrow> runState" where
  "runFinish r lastIndex =
     (if nonCompactingFirst r \<noteq> - 1 \<and> runBetter r lastIndex
      then r\<lparr>candidateNonCompactingFirst := nonCompactingFirst r,
             candidateNonCompactingLast := lastIndex\<rparr>
      else r)"

text \<open>Lines 1523-1537: the files of the chosen run, given by their indices, are added.\<close>

fun rectAddLoop ::
  "FileMetadata list \<Rightarrow> int list \<Rightarrow> int \<times> L0CompactionFiles \<Rightarrow> error + int \<times> L0CompactionFiles" where
  "rectAddLoop fs [] st = Inr st"
| "rectAddLoop fs (i # is) st =
     (case elemAt fs i of
        Inl e \<Rightarrow> Inl e
      | Inr f \<Rightarrow>
         if Compacting f then Inl PanicExpectedNotCompacting
         else if isIntraL0 (snd st) \<and> LargestSeqNum f \<ge> earliestUnflushedSeqNum (snd st)
         then rectAddLoop fs is st
         else
           (case elemAt (FilesIncluded (snd st)) (l0Index f) of
              Inl e \<Rightarrow> Inl e
            | Inr picked \<Rightarrow>
               if picked then rectAddLoop fs is st
               else (case addFile (snd st) f of
                       Inl e \<Rightarrow> Inl e
                     | Inr c' \<Rightarrow> rectAddLoop fs is (fst st + 1, c'))))"

text \<open>
  One sublevel (the body of the loop of line 1415). The result is \<open>None\<close> where the source
  leaves the loop (\<open>break\<close>), and the new \<open>minIntervalIndex\<close>, \<open>maxIntervalIndex\<close>,
  \<open>addedCount\<close> and candidate where it goes on to the next sublevel.
\<close>

definition rectLevel ::
  "FileMetadata list \<Rightarrow> int \<Rightarrow> int \<Rightarrow> int \<Rightarrow> L0CompactionFiles
    \<Rightarrow> error + (int \<times> int \<times> int \<times> L0CompactionFiles) option" where
  "rectLevel fs minI maxI addedCount candidate =
     (let idx = sort_Search (int (length fs)) (\<lambda>i. minI \<le> maxIntervalIndex (fs ! nat i)) in
      case rectScan (drop (nat idx) (enumerate 0 fs)) minI maxI (- 1) (- 1) of
        (minI1, maxI1, firstIndex, lastIndex) \<Rightarrow>
          if minI1 > maxI1 then Inr None
          else if firstIndex < 0 then Inr (Some (minI1, maxI1, addedCount, candidate))
          else
            bindE (runLoop (FilesIncluded candidate)
                     (drop (nat firstIndex) (take (nat lastIndex + 1) (enumerate 0 fs)))
                     \<lparr>nonCompactingFirst = - 1, currentRunHasAlreadyPickedFiles = False,
                      candidateNonCompactingFirst = - 1, candidateNonCompactingLast = - 1,
                      candidateHasAlreadyPickedFiles = False\<rparr>) (\<lambda>r0.
            let r = runFinish r0 lastIndex;
                cFirst = candidateNonCompactingFirst r;
                cLast = candidateNonCompactingLast r
            in if cFirst = - 1 then Inr None
            else
              bindE (if cFirst > firstIndex
                     then bindE (elemAt fs (cFirst - 1)) (\<lambda>g. Inr (maxIntervalIndex g + 1))
                     else Inr minI1) (\<lambda>minI2.
              bindE (if cLast < lastIndex
                     then bindE (elemAt fs (cLast + 1)) (\<lambda>g. Inr (minIntervalIndex g - 1))
                     else Inr maxI1) (\<lambda>maxI2.
              bindE (rectAddLoop fs [cFirst..cLast] (addedCount, candidate)) (\<lambda>st.
                Inr (Some (minI2, maxI2, fst st, snd st)))))))"

text \<open>
  The loop over the sublevels, \<open>for sl := startLevel; sl != endLevel; sl += increment\<close>,
  with \<open>increment\<close> \<open>+1\<close> for a base compaction (\<open>up\<close>) and \<open>-1\<close> otherwise. A level
  outside \<open>s.Levels\<close> panics, which bounds the loop.
\<close>

function rectLoop ::
  "L0Sublevels \<Rightarrow> bool \<Rightarrow> int \<Rightarrow> int \<Rightarrow> int \<Rightarrow> int \<Rightarrow> int \<Rightarrow> L0CompactionFiles
    \<Rightarrow> error + int \<times> L0CompactionFiles" where
  "rectLoop s up endLevel sl minI maxI addedCount candidate =
     (if sl = endLevel then Inr (addedCount, candidate)
      else if sl < 0 \<or> sl \<ge> int (length (Levels s)) then Inl PanicIndexOutOfRange
      else
        (case rectLevel (Levels s ! nat sl) minI maxI addedCount candidate of
           Inl e \<Rightarrow> Inl e
         | Inr None \<Rightarrow> Inr (addedCount, candidate)
         | Inr (Some (minI', maxI', addedCount', candidate')) \<Rightarrow>
             rectLoop s up endLevel (if up then sl + 1 else sl - 1) minI' maxI' addedCount' candidate'))"
  by pat_completeness auto
termination
  by (relation "measure (\<lambda>(s, up, endLevel, sl, minI, maxI, addedCount, candidate).
        if up then nat (int (length (Levels s)) - sl) else nat (sl + 1))") auto

declare rectLoop.simps [simp del]

definition extendCandidateToRectangle ::
  "L0Sublevels \<Rightarrow> int \<Rightarrow> int \<Rightarrow> L0CompactionFiles \<Rightarrow> bool \<Rightarrow> error + bool \<times> L0CompactionFiles" where
  "extendCandidateToRectangle s minII maxII candidate isBase =
     (let c0 = candidate\<lparr>preExtensionMinInterval := minIntervalIndex_lcf candidate,
                         preExtensionMaxInterval := maxIntervalIndex_lcf candidate\<rparr>;
          minI = (if minII > minIntervalIndex_lcf c0 then minIntervalIndex_lcf c0 else minII);
          maxI = (if maxII < maxIntervalIndex_lcf c0 then maxIntervalIndex_lcf c0 else maxII);
          startLevel = (if isBase then 0 else int (length (Levels s)) - 1);
          endLevel = (if isBase then seedIntervalMaxLevel c0 + 1 else seedIntervalMinLevel c0 - 1)
      in bindE (rectLoop s isBase endLevel startLevel minI maxI 0 c0) (\<lambda>st.
           Inr (fst st > 0, snd st)))"

subsection \<open>\<open>PickIntraL0Compaction\<close> and \<open>intraL0CompactionUsingSeed\<close> (lines 1097-1258)\<close>

text \<open>The loop \<open>for currLevel := sl + 1; currLevel < len(s.Levels); currLevel++\<close> (lines 1229-1235).\<close>

function extendFilesUp ::
  "L0Sublevels \<Rightarrow> uint64 \<Rightarrow> int \<Rightarrow> L0CompactionFiles \<Rightarrow> error + bool \<times> L0CompactionFiles" where
  "extendFilesUp s eusn currLevel c =
     (if currLevel < int (length (Levels s)) then
        (case extendFiles s currLevel eusn c of
           Inl e \<Rightarrow> Inl e
         | Inr r \<Rightarrow> if \<not> fst r then Inr (False, snd r)
                    else extendFilesUp s eusn (currLevel + 1) (snd r))
      else Inr (True, c))"
  by pat_completeness auto
termination
  by (relation "measure (\<lambda>(s, eusn, currLevel, c). nat (int (length (Levels s)) - currLevel))") auto

declare extendFilesUp.simps [simp del]

text \<open>
  Lines 1187-1193: the index of the seed file among the files of the interval, searched
  from the top. Two pointers are equal when they are the same file; going below index 0
  panics.
\<close>

function findSeedIndex :: "FileMetadata list \<Rightarrow> FileMetadata \<Rightarrow> int \<Rightarrow> error + int" where
  "findSeedIndex fs f slIndex =
     (if 0 \<le> slIndex \<and> slIndex < int (length fs) then
        (if fs ! nat slIndex = f then Inr slIndex else findSeedIndex fs f (slIndex - 1))
      else Inl PanicIndexOutOfRange)"
  by pat_completeness auto
termination
  by (relation "measure (\<lambda>(fs, f, slIndex). nat (slIndex + 1))") auto

declare findSeedIndex.simps [simp del]

text \<open>
  The main loop (lines 1200-1247) over the files of the seed interval from \<open>slIndex\<close>
  down to 0, given here from the seed file downwards.
\<close>

fun intraSeedLoop ::
  "L0Sublevels \<Rightarrow> uint64 \<Rightarrow> int \<Rightarrow> FileMetadata list \<Rightarrow> L0CompactionFiles
    \<Rightarrow> L0CompactionFiles option \<Rightarrow> error + L0CompactionFiles option" where
  "intraSeedLoop s eusn minCompactionDepth [] c lastCandidate = Inr lastCandidate"
| "intraSeedLoop s eusn minCompactionDepth (f2 # fs) c lastCandidate =
     (if Compacting f2 then Inr lastCandidate
      else
     (case addFile (c\<lparr>seedIntervalStackDepthReduction := seedIntervalStackDepthReduction c + 1,
                      seedIntervalMinLevel := subLevel f2\<rparr>) f2 of
        Inl e \<Rightarrow> Inl e
      | Inr c1 \<Rightarrow>
         (case extendFilesUp s eusn (subLevel f2 + 1) c1 of
            Inl e \<Rightarrow> Inl e
          | Inr r \<Rightarrow>
             if \<not> fst r then Inr lastCandidate
             else (case lastCandidate of
                     None \<Rightarrow> intraSeedLoop s eusn minCompactionDepth fs (snd r) (Some (snd r))
                   | Some l \<Rightarrow>
                       if growthCapReached minCompactionDepth l (snd r) then Inr lastCandidate
                       else intraSeedLoop s eusn minCompactionDepth fs (snd r) (Some (snd r))))))"

definition intraL0CompactionUsingSeed ::
  "L0Sublevels \<Rightarrow> FileMetadata \<Rightarrow> int \<Rightarrow> uint64 \<Rightarrow> int \<Rightarrow> error + L0CompactionFiles option" where
  "intraL0CompactionUsingSeed s f intervalIndex eusn minCompactionDepth =
     bindE (addFile
              \<lparr>Files = [], FilesIncluded = newBitSet (int (length (levelMetadata s))),
               seedIntervalStackDepthReduction = 0, seedIntervalMinLevel = 0,
               seedIntervalMaxLevel = int (length (Levels s)) - 1,
               seedInterval = intervalIndex, fileBytes_lcf = 0,
               minIntervalIndex_lcf = minIntervalIndex f,
               maxIntervalIndex_lcf = maxIntervalIndex f,
               isIntraL0 = True, earliestUnflushedSeqNum = eusn,
               preExtensionMinInterval = 0, preExtensionMaxInterval = 0, filesAdded = []\<rparr> f)
       (\<lambda>c.
     bindE (elemAt (orderedIntervals s) intervalIndex) (\<lambda>iv.
     bindE (findSeedIndex (files iv) f (int (length (files iv)) - 1)) (\<lambda>slIndex.
     bindE (intraSeedLoop s eusn minCompactionDepth
              (rev (take (nat slIndex + 1) (files iv))) c None) (\<lambda>lastCandidate.
       case lastCandidate of
         None \<Rightarrow> Inr None
       | Some l \<Rightarrow>
           if seedIntervalStackDepthReduction l \<ge> minCompactionDepth
           then bindE (remarkFiles l) (\<lambda>l'.
                bindE (extendCandidateToRectangle s (minIntervalIndex_lcf l')
                         (maxIntervalIndex_lcf l') l' False) (\<lambda>r.
                  Inr (Some (snd r))))
           else Inr None))))"

text \<open>Lines 1100-1109: the intervals deep enough, by decreasing depth.\<close>

definition intraScore :: "int \<Rightarrow> nat \<times> fileInterval \<Rightarrow> intervalAndScore list" where
  "intraScore minCompactionDepth p =
     (let depth = fileCount (snd p) - compactingFileCount (snd p) in
      if minCompactionDepth > depth then []
      else [\<lparr>interval = int (fst p), score = depth\<rparr>])"

definition intraScoredIntervals :: "L0Sublevels \<Rightarrow> int \<Rightarrow> intervalAndScore list" where
  "intraScoredIntervals s minCompactionDepth =
     sort_Sort (\<lambda>a b. score a > score b)
       (concat (map (intraScore minCompactionDepth) (enumerate 0 (orderedIntervals s))))"

text \<open>
  Lines 1125-1142: the search of a seed file from the highest sublevel of the interval
  down. The list is the files still to visit, top first; the state is \<open>f\<close> (\<open>None\<close> for
  \<open>nil\<close>), \<open>stackDepthReduction\<close> and \<open>consideredIntervals\<close>.
\<close>

fun seedSearch ::
  "uint64 \<Rightarrow> FileMetadata list \<Rightarrow> FileMetadata option \<Rightarrow> int \<Rightarrow> bitSet
    \<Rightarrow> error + FileMetadata option \<times> int \<times> bitSet" where
  "seedSearch eusn [] f stackDepthReduction considered = Inr (f, stackDepthReduction, considered)"
| "seedSearch eusn (g # gs) f stackDepthReduction considered =
     (if Compacting g then Inr (Some g, stackDepthReduction, considered)
      else
        (case markBits considered (minIntervalIndex g) (maxIntervalIndex g + 1) of
           Inl e \<Rightarrow> Inl e
         | Inr considered' \<Rightarrow>
            if LargestSeqNum g \<ge> eusn then
              (if stackDepthReduction - 1 = 0 then Inr (Some g, stackDepthReduction - 1, considered')
               else seedSearch eusn gs (Some g) (stackDepthReduction - 1) considered')
            else Inr (Some g, stackDepthReduction, considered')))"

text \<open>The loop over the scored intervals (lines 1115-1163).\<close>

fun pickIntraLoop ::
  "L0Sublevels \<Rightarrow> uint64 \<Rightarrow> int \<Rightarrow> intervalAndScore list \<Rightarrow> bitSet
    \<Rightarrow> error + L0CompactionFiles option" where
  "pickIntraLoop s eusn minCompactionDepth [] considered = Inr None"
| "pickIntraLoop s eusn minCompactionDepth (si # rest) considered =
     (case elemAt (orderedIntervals s) (interval si) of
        Inl e \<Rightarrow> Inl e
      | Inr iv \<Rightarrow>
     (case elemAt considered (index iv) of
        Inl e \<Rightarrow> Inl e
      | Inr seen \<Rightarrow>
     if seen then pickIntraLoop s eusn minCompactionDepth rest considered
     else
     (case seedSearch eusn (rev (files iv)) None (score si) considered of
        Inl e \<Rightarrow> Inl e
      | Inr (fo, stackDepthReduction, considered') \<Rightarrow>
     if stackDepthReduction < minCompactionDepth
     then pickIntraLoop s eusn minCompactionDepth rest considered'
     else
     (case fo of
        None \<Rightarrow> Inl ErrNoSeedFile
      | Some f \<Rightarrow>
     if Compacting f then pickIntraLoop s eusn minCompactionDepth rest considered'
     else
     (case intraL0CompactionUsingSeed s f (index iv) eusn minCompactionDepth of
        Inl e \<Rightarrow> Inl e
      | Inr None \<Rightarrow> pickIntraLoop s eusn minCompactionDepth rest considered'
      | Inr (Some c) \<Rightarrow> Inr (Some c))))))"

definition PickIntraL0Compaction ::
  "L0Sublevels \<Rightarrow> uint64 \<Rightarrow> int \<Rightarrow> error + L0CompactionFiles option" where
  "PickIntraL0Compaction s eusn minCompactionDepth =
     pickIntraLoop s eusn minCompactionDepth (intraScoredIntervals s minCompactionDepth)
       (newBitSet (int (length (orderedIntervals s))))"

section \<open>Sample inputs\<close>

text \<open>
  The comparator of the scenarios: user keys in the lexicographic order of their bytes
  (the default comparer of the database).
\<close>

definition bytesCompare :: Compare where
  "bytesCompare a b = (if a < b then - 1 else if a = b then 0 else 1)"

text \<open>
  An L0 file with inclusive bounds \<open>[a, b]\<close>, a size, one sequence number, and the two
  compaction flags. The fields the engine assigns start at zero.
\<close>

definition l0File ::
  "nat \<Rightarrow> string \<Rightarrow> string \<Rightarrow> uint64 \<Rightarrow> uint64 \<Rightarrow> bool \<Rightarrow> bool \<Rightarrow> FileMetadata" where
  "l0File n a b sz sq compacting intra =
     \<lparr>FileNum = n, Size = sz, SmallestSeqNum = sq, LargestSeqNum = sq,
      Smallest = \<lparr>UserKey = a, Trailer = 1\<rparr>, Largest = \<lparr>UserKey = b, Trailer = 1\<rparr>,
      Compacting = compacting, IsIntraL0Compacting = intra,
      l0Index = 0, minIntervalIndex = 0, maxIntervalIndex = 0, subLevel = 0\<rparr>"

text \<open>A candidate over \<open>n\<close> files that holds no file yet and spans the intervals \<open>lo .. hi\<close>.\<close>

definition emptyCandidate :: "int \<Rightarrow> int \<Rightarrow> int \<Rightarrow> L0CompactionFiles" where
  "emptyCandidate n lo hi =
     \<lparr>Files = [], FilesIncluded = newBitSet n,
      seedIntervalStackDepthReduction = 0, seedIntervalMinLevel = 0,
      seedIntervalMaxLevel = 0, seedInterval = 0, fileBytes_lcf = 0,
      minIntervalIndex_lcf = lo, maxIntervalIndex_lcf = hi,
      isIntraL0 = False, earliestUnflushedSeqNum = 0,
      preExtensionMinInterval = 0, preExtensionMaxInterval = 0, filesAdded = []\<rparr>"

text \<open>
  The engine built from a list of L0 files with \<open>bytesCompare\<close>, after
  \<open>InitCompactingFileInfo\<close> with no compaction in progress.
\<close>

definition engineOf :: "FileMetadata list \<Rightarrow> uint64 \<Rightarrow> error + L0Sublevels" where
  "engineOf lm flushSplitMaxBytes =
     bindE (NewL0Sublevels lm bytesCompare flushSplitMaxBytes) (\<lambda>s. InitCompactingFileInfo s [])"

text \<open>What a picker returned, reduced to a view \<open>g\<close> of the candidate.\<close>

definition pickView ::
  "(L0CompactionFiles \<Rightarrow> 'a) \<Rightarrow> error + L0CompactionFiles option \<Rightarrow> error + 'a option" where
  "pickView g r = map_sum id (map_option g) r"

text \<open>Two files as the engine would have numbered and placed them, of different sizes and spans.\<close>

definition sampleF :: FileMetadata where
  "sampleF = (l0File 7 ''c'' ''d'' 100 1 False False)
               \<lparr>l0Index := 0, minIntervalIndex := 3, maxIntervalIndex := 4\<rparr>"

definition sampleG :: FileMetadata where
  "sampleG = (l0File 8 ''f'' ''k'' 50 2 False False)
               \<lparr>l0Index := 1, minIntervalIndex := 6, maxIntervalIndex := 9\<rparr>"

section \<open>Notions used by the statements\<close>

text \<open>
  A candidate is \<open>accounted\<close> when no \<open>l0Index\<close> occurs twice among its files, the bits
  set in \<open>FilesIncluded\<close> are the \<open>l0Index\<close> of its files, and \<open>fileBytes\<close> is the sum
  of their sizes.
\<close>

definition accounted :: "L0CompactionFiles \<Rightarrow> bool" where
  "accounted c \<longleftrightarrow>
     distinct (map l0Index (Files c)) \<and>
     (\<forall>i. 0 \<le> i \<and> i < int (length (FilesIncluded c)) \<longrightarrow>
          (FilesIncluded c ! nat i \<longleftrightarrow> i \<in> l0Index ` set (Files c))) \<and>
     l0Index ` set (Files c) \<subseteq> {0 ..< int (length (FilesIncluded c))} \<and>
     fileBytes_lcf c = sum_list (map Size (Files c))"

section \<open>Basic facts\<close>

lemma bindE_Inl [simp]: "bindE (Inl e) k = Inl e"
  and bindE_Inr [simp]: "bindE (Inr x) k = k x"
  by (simp_all add: bindE_def)

lemma bindE_eq_Inr: "bindE m k = Inr y \<longleftrightarrow> (\<exists>x. m = Inr x \<and> k x = Inr y)"
  by (cases m) auto

lemma elemAt_eq_Inr:
  "elemAt xs i = Inr x \<longleftrightarrow> 0 \<le> i \<and> i < int (length xs) \<and> x = xs ! nat i"
  by (auto simp: elemAt_def)

lemma setAt_eq_Inr:
  "setAt xs i v = Inr ys \<longleftrightarrow> 0 \<le> i \<and> i < int (length xs) \<and> ys = xs[nat i := v]"
  by (auto simp: setAt_def)

lemma foldE_invariant:
  "foldE f xs s = Inr s' \<Longrightarrow> I s \<Longrightarrow>
   (\<And>x t t'. x \<in> set xs \<Longrightarrow> I t \<Longrightarrow> f x t = Inr t' \<Longrightarrow> I t') \<Longrightarrow> I s'"
proof (induction xs arbitrary: s)
  case Nil
  then show ?case by simp
next
  case (Cons x xs)
  from Cons.prems(1) obtain t where t: "f x s = Inr t" "foldE f xs t = Inr s'"
    by (auto simp: bindE_eq_Inr)
  have it: "I t" using Cons.prems(3)[OF _ Cons.prems(2) t(1)] by simp
  have step: "I u'" if "y \<in> set xs" "I u" "f y u = Inr u'" for y u u'
    using Cons.prems(3)[of y u u'] that by simp
  show ?case by (rule Cons.IH[OF t(2) it step])
qed

lemma pickView_Some:
  "pickView g r = Inr (Some v) \<Longrightarrow> \<exists>c. r = Inr (Some c) \<and> g c = v"
  by (cases r) (auto simp: pickView_def)

section \<open>Adding a file twice (claim C10)\<close>

lemma addFile_included:
  "elemAt (FilesIncluded c) (l0Index f) = Inr True \<Longrightarrow> addFile c f = Inr c"
  by (simp add: addFile_def)

lemma addFile_marks:
  "addFile c f = Inr c' \<Longrightarrow> elemAt (FilesIncluded c') (l0Index f) = Inr True"
  by (auto simp: addFile_def bindE_eq_Inr elemAt_eq_Inr markBit_def setAt_eq_Inr Let_def
           split: if_splits)

lemma addFile_new:
  assumes "elemAt (FilesIncluded c) (l0Index f) = Inr False"
  shows "addFile c f =
     Inr (c\<lparr>FilesIncluded := (FilesIncluded c)[nat (l0Index f) := True],
            Files := Files c @ [f],
            filesAdded := filesAdded c @ [f],
            fileBytes_lcf := fileBytes_lcf c + Size f,
            minIntervalIndex_lcf := min (minIntervalIndex f) (minIntervalIndex_lcf c),
            maxIntervalIndex_lcf := max (maxIntervalIndex f) (maxIntervalIndex_lcf c)\<rparr>)"
  using assms
  by (auto simp: addFile_def elemAt_def markBit_def setAt_def Let_def min_def max_def
           split: if_splits)

lemma addFile_cases:
  assumes "addFile c f = Inr c'"
  shows "(elemAt (FilesIncluded c) (l0Index f) = Inr True \<and> c' = c) \<or>
         (elemAt (FilesIncluded c) (l0Index f) = Inr False \<and>
          c' = c\<lparr>FilesIncluded := (FilesIncluded c)[nat (l0Index f) := True],
            Files := Files c @ [f],
            filesAdded := filesAdded c @ [f],
            fileBytes_lcf := fileBytes_lcf c + Size f,
            minIntervalIndex_lcf := min (minIntervalIndex f) (minIntervalIndex_lcf c),
            maxIntervalIndex_lcf := max (maxIntervalIndex f) (maxIntervalIndex_lcf c)\<rparr>)"
proof -
  from assms obtain b where b: "elemAt (FilesIncluded c) (l0Index f) = Inr b"
    by (auto simp: addFile_def bindE_eq_Inr)
  show ?thesis
  proof (cases b)
    case True
    with b assms addFile_included[of c f] show ?thesis by simp
  next
    case False
    with b assms addFile_new[of c f] show ?thesis by simp
  qed
qed

lemma addFile_keeps_bits:
  assumes "addFile c g = Inr c'" "elemAt (FilesIncluded c) i = Inr True"
  shows "elemAt (FilesIncluded c') i = Inr True"
  using addFile_cases[OF assms(1)] assms(2)
  by (auto simp: elemAt_eq_Inr nth_list_update)

lemma accounted_addFile:
  assumes "addFile c f = Inr c'" "accounted c"
  shows "accounted c'"
proof -
  from addFile_cases[OF assms(1)] show ?thesis
  proof
    assume "elemAt (FilesIncluded c) (l0Index f) = Inr True \<and> c' = c"
    with assms(2) show ?thesis by simp
  next
    assume a: "elemAt (FilesIncluded c) (l0Index f) = Inr False \<and>
          c' = c\<lparr>FilesIncluded := (FilesIncluded c)[nat (l0Index f) := True],
            Files := Files c @ [f],
            filesAdded := filesAdded c @ [f],
            fileBytes_lcf := fileBytes_lcf c + Size f,
            minIntervalIndex_lcf := min (minIntervalIndex f) (minIntervalIndex_lcf c),
            maxIntervalIndex_lcf := max (maxIntervalIndex f) (maxIntervalIndex_lcf c)\<rparr>"
    then have r: "0 \<le> l0Index f" "l0Index f < int (length (FilesIncluded c))"
      "\<not> FilesIncluded c ! nat (l0Index f)"
      by (auto simp: elemAt_eq_Inr)
    from assms(2) r have notin: "l0Index f \<notin> l0Index ` set (Files c)"
      unfolding accounted_def by blast
    have bits: "(FilesIncluded c)[nat (l0Index f) := True] ! nat i \<longleftrightarrow>
                 i \<in> l0Index ` set (Files c @ [f])"
      if "0 \<le> i" "i < int (length (FilesIncluded c))" for i
    proof (cases "i = l0Index f")
      case True
      with r show ?thesis by simp
    next
      case False
      with that r have "nat i \<noteq> nat (l0Index f)" by linarith
      with that assms(2) False show ?thesis unfolding accounted_def by auto
    qed
    from assms(2) notin r bits a show ?thesis
      unfolding accounted_def by auto
  qed
qed

lemma accounted_adds:
  assumes "foldE (\<lambda>f c. addFile c f) fs c0 = Inr c'" "accounted c0"
  shows "accounted c'"
  by (rule foldE_invariant[OF assms(1), where I = accounted, OF assms(2)])
     (rule accounted_addFile)

lemma adds_include:
  assumes "foldE (\<lambda>f c. addFile c f) fs c0 = Inr c'"
  shows "(\<forall>f \<in> set fs. elemAt (FilesIncluded c') (l0Index f) = Inr True) \<and>
         (\<forall>i. elemAt (FilesIncluded c0) i = Inr True \<longrightarrow> elemAt (FilesIncluded c') i = Inr True)"
  using assms
proof (induction fs arbitrary: c0)
  case Nil
  then show ?case by simp
next
  case (Cons f fs)
  from Cons.prems obtain c1 where c1: "addFile c0 f = Inr c1" "foldE (\<lambda>f c. addFile c f) fs c1 = Inr c'"
    by (auto simp: bindE_eq_Inr)
  from Cons.IH[OF c1(2)] addFile_marks[OF c1(1)] addFile_keeps_bits[OF c1(1)]
  show ?case by auto
qed


lemma adds_files_subset:
  assumes "foldE (\<lambda>f c. addFile c f) fs c0 = Inr c'"
  shows "set (Files c') \<subseteq> set (Files c0) \<union> set fs"
  using assms
proof (induction fs arbitrary: c0)
  case Nil
  then show ?case by simp
next
  case (Cons f fs)
  from Cons.prems obtain c1 where c1: "addFile c0 f = Inr c1" "foldE (\<lambda>f c. addFile c f) fs c1 = Inr c'"
    by (auto simp: bindE_eq_Inr)
  from addFile_cases[OF c1(1)] have "set (Files c1) \<subseteq> set (Files c0) \<union> {f}" by auto
  with Cons.IH[OF c1(2)] show ?case by auto
qed

lemma accounted_fresh:
  "Files c = [] \<Longrightarrow> fileBytes_lcf c = 0 \<Longrightarrow> FilesIncluded c = newBitSet n \<Longrightarrow> accounted c"
  by (auto simp: accounted_def newBitSet_def)

text \<open>
  Claim C10. (1) Adding a file that the candidate already includes (its bit in
  \<open>FilesIncluded\<close> is set) returns the candidate itself: \<open>Files\<close>, \<open>FilesIncluded\<close>,
  \<open>fileBytes\<close> and both interval bounds keep their values. (2) Adding a file whose bit is
  not set appends it to \<open>Files\<close>, sets its bit, adds its size to \<open>fileBytes\<close> and widens
  the bounds to its span. (3) A file just added is included, so adding it at once again
  changes nothing; (4) and it stays included when other files are added, so adding it later
  changes nothing either. (5) Hence, whatever sequence of files (with any repetitions) is
  added to a fresh candidate, no \<open>l0Index\<close> occurs twice in \<open>Files\<close>, the files held are
  those met, and \<open>fileBytes\<close> is the sum of the sizes of the files held: each file's size is
  counted once.
\<close>

theorem addFile_once:
  "(elemAt (FilesIncluded c) (l0Index f) = Inr True \<longrightarrow> addFile c f = Inr c) \<and>
   (elemAt (FilesIncluded c) (l0Index f) = Inr False \<longrightarrow>
      addFile c f =
        Inr (c\<lparr>FilesIncluded := (FilesIncluded c)[nat (l0Index f) := True],
               Files := Files c @ [f],
               filesAdded := filesAdded c @ [f],
               fileBytes_lcf := fileBytes_lcf c + Size f,
               minIntervalIndex_lcf := min (minIntervalIndex f) (minIntervalIndex_lcf c),
               maxIntervalIndex_lcf := max (maxIntervalIndex f) (maxIntervalIndex_lcf c)\<rparr>)) \<and>
   (addFile c f = Inr c' \<longrightarrow> addFile c' f = Inr c') \<and>
   (elemAt (FilesIncluded c) (l0Index f) = Inr True \<and> addFile c g = Inr c' \<longrightarrow>
      addFile c' f = Inr c') \<and>
   (Files c0 = [] \<and> fileBytes_lcf c0 = 0 \<and> FilesIncluded c0 = newBitSet n \<and>
    foldE (\<lambda>f c. addFile c f) fs c0 = Inr c1 \<longrightarrow>
      distinct (map l0Index (Files c1)) \<and>
      set (Files c1) \<subseteq> set fs \<and>
      l0Index ` set (Files c1) = l0Index ` set fs \<and>
      fileBytes_lcf c1 = sum_list (map Size (Files c1)))"
proof (intro conjI impI)
  assume "elemAt (FilesIncluded c) (l0Index f) = Inr True"
  then show "addFile c f = Inr c" by (rule addFile_included)
next
  assume "elemAt (FilesIncluded c) (l0Index f) = Inr False"
  then show "addFile c f =
        Inr (c\<lparr>FilesIncluded := (FilesIncluded c)[nat (l0Index f) := True],
               Files := Files c @ [f],
               filesAdded := filesAdded c @ [f],
               fileBytes_lcf := fileBytes_lcf c + Size f,
               minIntervalIndex_lcf := min (minIntervalIndex f) (minIntervalIndex_lcf c),
               maxIntervalIndex_lcf := max (maxIntervalIndex f) (maxIntervalIndex_lcf c)\<rparr>)"
    by (rule addFile_new)
next
  assume "addFile c f = Inr c'"
  then show "addFile c' f = Inr c'" by (rule addFile_included[OF addFile_marks])
next
  assume "elemAt (FilesIncluded c) (l0Index f) = Inr True \<and> addFile c g = Inr c'"
  then have "elemAt (FilesIncluded c') (l0Index f) = Inr True"
    using addFile_keeps_bits[of c g c' "l0Index f"] by simp
  then show "addFile c' f = Inr c'" by (rule addFile_included)
next
  assume a: "Files c0 = [] \<and> fileBytes_lcf c0 = 0 \<and> FilesIncluded c0 = newBitSet n \<and>
    foldE (\<lambda>f c. addFile c f) fs c0 = Inr c1"
  then have acc: "accounted c1" using accounted_adds accounted_fresh by blast
  from a adds_files_subset[of fs c0 c1] have sub: "set (Files c1) \<subseteq> set fs" by simp
  from a adds_include[of fs c0 c1]
  have inc: "\<forall>f \<in> set fs. elemAt (FilesIncluded c1) (l0Index f) = Inr True" by simp
  have "l0Index ` set fs \<subseteq> l0Index ` set (Files c1)"
  proof
    fix i assume "i \<in> l0Index ` set fs"
    then obtain f where "f \<in> set fs" "i = l0Index f" by auto
    with inc have "0 \<le> i" "i < int (length (FilesIncluded c1))" "FilesIncluded c1 ! nat i"
      by (auto simp: elemAt_eq_Inr)
    with acc show "i \<in> l0Index ` set (Files c1)" unfolding accounted_def by blast
  qed
  with sub have eq: "l0Index ` set (Files c1) = l0Index ` set fs" by auto
  from acc sub eq
  show "distinct (map l0Index (Files c1))" "set (Files c1) \<subseteq> set fs"
    "l0Index ` set (Files c1) = l0Index ` set fs"
    "fileBytes_lcf c1 = sum_list (map Size (Files c1))"
    unfolding accounted_def by auto
qed

theorem addFile_once_witness:
  "addFile (emptyCandidate 2 5 5) sampleF
     = Inr ((emptyCandidate 2 5 5)
             \<lparr>Files := [sampleF], FilesIncluded := [True, False], fileBytes_lcf := 100,
              minIntervalIndex_lcf := 3, filesAdded := [sampleF]\<rparr>) \<and>
   addFile ((emptyCandidate 2 5 5)
             \<lparr>Files := [sampleF], FilesIncluded := [True, False], fileBytes_lcf := 100,
              minIntervalIndex_lcf := 3, filesAdded := [sampleF]\<rparr>) sampleG
     = Inr ((emptyCandidate 2 5 5)
             \<lparr>Files := [sampleF, sampleG], FilesIncluded := [True, True], fileBytes_lcf := 150,
              minIntervalIndex_lcf := 3, maxIntervalIndex_lcf := 9,
              filesAdded := [sampleF, sampleG]\<rparr>) \<and>
   addFile ((emptyCandidate 2 5 5)
             \<lparr>Files := [sampleF, sampleG], FilesIncluded := [True, True], fileBytes_lcf := 150,
              minIntervalIndex_lcf := 3, maxIntervalIndex_lcf := 9,
              filesAdded := [sampleF, sampleG]\<rparr>) sampleF
     = Inr ((emptyCandidate 2 5 5)
             \<lparr>Files := [sampleF, sampleG], FilesIncluded := [True, True], fileBytes_lcf := 150,
              minIntervalIndex_lcf := 3, maxIntervalIndex_lcf := 9,
              filesAdded := [sampleF, sampleG]\<rparr>) \<and>
   foldE (\<lambda>f c. addFile c f) [sampleF, sampleG, sampleF, sampleG, sampleF] (emptyCandidate 2 5 5)
     = Inr ((emptyCandidate 2 5 5)
             \<lparr>Files := [sampleF, sampleG], FilesIncluded := [True, True], fileBytes_lcf := 150,
              minIntervalIndex_lcf := 3, maxIntervalIndex_lcf := 9,
              filesAdded := [sampleF, sampleG]\<rparr>) \<and>
   sum_list (map Size [sampleF, sampleG]) = 150"
proof -
  let ?c0 = "emptyCandidate 2 5 5"
  let ?c1 = "?c0\<lparr>Files := [sampleF], FilesIncluded := [True, False], fileBytes_lcf := 100,
              minIntervalIndex_lcf := 3, filesAdded := [sampleF]\<rparr>"
  let ?c2 = "?c0\<lparr>Files := [sampleF, sampleG], FilesIncluded := [True, True], fileBytes_lcf := 150,
              minIntervalIndex_lcf := 3, maxIntervalIndex_lcf := 9,
              filesAdded := [sampleF, sampleG]\<rparr>"
  have b0: "elemAt (FilesIncluded ?c0) (l0Index sampleF) = Inr False"
    by code_simp
  have e1: "?c0\<lparr>FilesIncluded := (FilesIncluded ?c0)[nat (l0Index sampleF) := True],
               Files := Files ?c0 @ [sampleF],
               filesAdded := filesAdded ?c0 @ [sampleF],
               fileBytes_lcf := fileBytes_lcf ?c0 + Size sampleF,
               minIntervalIndex_lcf := min (minIntervalIndex sampleF) (minIntervalIndex_lcf ?c0),
               maxIntervalIndex_lcf := max (maxIntervalIndex sampleF) (maxIntervalIndex_lcf ?c0)\<rparr>
            = ?c1"
    by code_simp
  have s1: "addFile ?c0 sampleF = Inr ?c1"
    using addFile_once[of ?c0 sampleF, THEN conjunct2, THEN conjunct1, rule_format, OF b0]
    by (simp only: e1)
  have b1: "elemAt (FilesIncluded ?c1) (l0Index sampleG) = Inr False"
    by code_simp
  have e2: "?c1\<lparr>FilesIncluded := (FilesIncluded ?c1)[nat (l0Index sampleG) := True],
               Files := Files ?c1 @ [sampleG],
               filesAdded := filesAdded ?c1 @ [sampleG],
               fileBytes_lcf := fileBytes_lcf ?c1 + Size sampleG,
               minIntervalIndex_lcf := min (minIntervalIndex sampleG) (minIntervalIndex_lcf ?c1),
               maxIntervalIndex_lcf := max (maxIntervalIndex sampleG) (maxIntervalIndex_lcf ?c1)\<rparr>
            = ?c2"
    by code_simp
  have s2: "addFile ?c1 sampleG = Inr ?c2"
    using addFile_once[of ?c1 sampleG, THEN conjunct2, THEN conjunct1, rule_format, OF b1]
    by (simp only: e2)
  have b2: "elemAt (FilesIncluded ?c1) (l0Index sampleF) = Inr True"
    by code_simp
  have s3: "addFile ?c2 sampleF = Inr ?c2"
    using addFile_once[of ?c1 sampleF _ sampleG ?c2] b2 s2 by blast
  have s4: "addFile ?c2 sampleG = Inr ?c2"
    using addFile_once[of ?c1 sampleG ?c2] s2 by blast
  have run: "foldE (\<lambda>f c. addFile c f) [sampleF, sampleG, sampleF, sampleG, sampleF] ?c0 = Inr ?c2"
    using s1 s2 s3 s4 by simp
  have "sum_list (map Size [sampleF, sampleG]) = 150"
    by code_simp
  with s1 s2 s3 run show ?thesis by blast
qed

section \<open>Depth of the candidates picked (claim C7)\<close>

lemma addFile_sdr:
  "addFile c f = Inr c' \<Longrightarrow> seedIntervalStackDepthReduction c' = seedIntervalStackDepthReduction c"
  by (auto simp: addFile_def bindE_eq_Inr elemAt_eq_Inr markBit_def setAt_eq_Inr Let_def
           split: if_splits)

lemma remarkFiles_sdr:
  "remarkFiles l = Inr l' \<Longrightarrow> seedIntervalStackDepthReduction l' = seedIntervalStackDepthReduction l"
  by (auto simp: remarkFiles_def bindE_eq_Inr)

lemma baseCompactionUsingSeed_Some:
  assumes "baseCompactionUsingSeed s f i mcd = Inr (Some c)"
  obtains c0 iv l where
    "addFile ((emptyCandidate (int (length (levelMetadata s))) (minIntervalIndex f) (maxIntervalIndex f))
               \<lparr>seedInterval := i\<rparr>) f = Inr c0"
    "elemAt (orderedIntervals s) i = Inr iv"
    "baseSeedLoop s mcd (files iv) c0 None = Inr (Some l)"
    "mcd \<le> seedIntervalStackDepthReduction l"
    "remarkFiles l = Inr c"
proof -
  from assms obtain c0 iv lc where
    a: "addFile ((emptyCandidate (int (length (levelMetadata s))) (minIntervalIndex f) (maxIntervalIndex f))
               \<lparr>seedInterval := i\<rparr>) f = Inr c0"
    and b: "elemAt (orderedIntervals s) i = Inr iv"
    and c: "baseSeedLoop s mcd (files iv) c0 None = Inr lc"
    and d: "(case lc of None \<Rightarrow> Inr None
             | Some l \<Rightarrow> if seedIntervalStackDepthReduction l \<ge> mcd
                         then bindE (remarkFiles l) (\<lambda>l'. Inr (Some l')) else Inr None) = Inr (Some c)"
    unfolding baseCompactionUsingSeed_def bindE_eq_Inr emptyCandidate_def by auto
  from d obtain l where l: "lc = Some l" by (cases lc) auto
  from d l have e: "mcd \<le> seedIntervalStackDepthReduction l" by (simp split: if_splits)
  from d l e have "remarkFiles l = Inr c" by (simp add: bindE_eq_Inr)
  with a b c l e that show thesis by blast
qed

lemma baseCompactionUsingSeed_sdr:
  "baseCompactionUsingSeed s f i mcd = Inr (Some c) \<Longrightarrow> mcd \<le> seedIntervalStackDepthReduction c"
  by (erule baseCompactionUsingSeed_Some) (simp add: remarkFiles_sdr)

lemma pickBaseLoop_Cons_Some:
  assumes "pickBaseLoop s mcd bf (si # rest) cons = Inr (Some c)"
  shows "(\<exists>cons'. pickBaseLoop s mcd bf rest cons' = Inr (Some c)) \<or>
         (\<exists>iv f. elemAt (orderedIntervals s) (interval si) = Inr iv \<and>
                 elemAt (files iv) 0 = Inr f \<and> \<not> Compacting f \<and>
                 baseCompactionUsingSeed s f (index iv) mcd = Inr (Some c) \<and>
                 lbaseIsCompacting s bf c = Inr False)"
proof -
  from assms obtain iv where iv: "elemAt (orderedIntervals s) (interval si) = Inr iv"
    by (simp split: sum.splits)
  from assms iv obtain seen where seen: "elemAt cons (index iv) = Inr seen"
    by (simp split: sum.splits)
  show ?thesis
  proof (cases seen)
    case True
    with assms iv seen show ?thesis by auto
  next
    case ns: False
    from assms iv seen ns obtain f where f: "elemAt (files iv) 0 = Inr f"
      by (simp split: sum.splits)
    from assms iv seen ns f obtain cons' where
      m: "markBits cons (minIntervalIndex f) (maxIntervalIndex f + 1) = Inr cons'"
      by (simp split: sum.splits)
    show ?thesis
    proof (cases "Compacting f")
      case True
      with assms iv seen ns f m show ?thesis by (auto split: if_splits)
    next
      case nc: False
      from assms iv seen ns f m nc obtain r where
        r: "baseCompactionUsingSeed s f (index iv) mcd = Inr r"
        by (simp split: sum.splits)
      show ?thesis
      proof (cases r)
        case None
        with assms iv seen ns f m nc r show ?thesis by auto
      next
        case (Some c')
        from assms iv seen ns f m nc r Some obtain b where
          b: "lbaseIsCompacting s bf c' = Inr b"
          by (simp split: sum.splits)
        show ?thesis
        proof (cases b)
          case True
          with assms iv seen ns f m nc r Some b show ?thesis by auto
        next
          case False
          with assms iv seen ns f m nc r Some b have "c' = c" by simp
          with iv f nc r Some b False show ?thesis by auto
        qed
      qed
    qed
  qed
qed

lemma pickBaseLoop_sdr:
  "pickBaseLoop s mcd baseFiles sis considered = Inr (Some c) \<Longrightarrow> mcd \<le> seedIntervalStackDepthReduction c"
proof (induction sis arbitrary: considered)
  case Nil
  then show ?case by simp
next
  case (Cons si rest)
  from pickBaseLoop_Cons_Some[OF Cons.prems] show ?case
    using Cons.IH baseCompactionUsingSeed_sdr by blast
qed


lemma rectAddLoop_preserves:
  assumes "rectAddLoop fs is st = Inr st'" and "P (snd st)"
    and "\<And>c f c'. P c \<Longrightarrow> f \<in> set fs \<Longrightarrow> \<not> Compacting f \<Longrightarrow>
           \<not> (isIntraL0 c \<and> LargestSeqNum f \<ge> earliestUnflushedSeqNum c) \<Longrightarrow>
           addFile c f = Inr c' \<Longrightarrow> P c'"
  shows "P (snd st')"
  using assms(1,2)
proof (induction "is" arbitrary: st)
  case Nil
  then show ?case by simp
next
  case (Cons i "is")
  from Cons.prems(1) obtain f where f: "elemAt fs i = Inr f"
    by (simp split: sum.splits)
  then have fin: "f \<in> set fs" by (auto simp: elemAt_eq_Inr)
  from Cons.prems(1) f have nc: "\<not> Compacting f" by (simp split: if_splits)
  show ?case
  proof (cases "isIntraL0 (snd st) \<and> LargestSeqNum f \<ge> earliestUnflushedSeqNum (snd st)")
    case True
    with Cons.prems(1) f nc have "rectAddLoop fs is st = Inr st'" by simp
    then show ?thesis using Cons.IH Cons.prems(2) by blast
  next
    case False
    from Cons.prems(1) f nc False obtain picked where p: "elemAt (FilesIncluded (snd st)) (l0Index f) = Inr picked"
      by (simp split: sum.splits)
    show ?thesis
    proof (cases picked)
      case True
      with Cons.prems(1) f nc False p have "rectAddLoop fs is st = Inr st'" by simp
      then show ?thesis using Cons.IH Cons.prems(2) by blast
    next
      case np: False
      from Cons.prems(1) f nc False p np obtain c' where c': "addFile (snd st) f = Inr c'"
        "rectAddLoop fs is (fst st + 1, c') = Inr st'"
        by (simp split: sum.splits)
      have "P c'" using assms(3)[OF Cons.prems(2) fin nc False c'(1)] .
      then show ?thesis using Cons.IH[OF c'(2)] by simp
    qed
  qed
qed

lemma rectLevel_preserves:
  assumes "rectLevel fs minI maxI n c = Inr (Some (minI', maxI', n', c'))" and "P c"
    and "\<And>c f c'. P c \<Longrightarrow> f \<in> set fs \<Longrightarrow> \<not> Compacting f \<Longrightarrow>
           \<not> (isIntraL0 c \<and> LargestSeqNum f \<ge> earliestUnflushedSeqNum c) \<Longrightarrow>
           addFile c f = Inr c' \<Longrightarrow> P c'"
  shows "P c'"
proof -
  obtain a b fi li where sc: "rectScan (drop (nat (sort_Search (int (length fs)) (\<lambda>i. minI \<le> maxIntervalIndex (fs ! nat i))))
            (enumerate 0 fs)) minI maxI (- 1) (- 1) = (a, b, fi, li)"
    using prod_cases4 by blast
  show ?thesis
  proof (cases "fi < 0")
    case True
    with assms(1) sc have "c' = c"
      by (simp add: rectLevel_def Let_def split: if_splits)
    with assms(2) show ?thesis by simp
  next
    case False
    with assms(1) sc obtain js st where "rectAddLoop fs js (n, c) = Inr st" "c' = snd st"
      by (auto simp: rectLevel_def Let_def bindE_eq_Inr split: if_splits)
    with rectAddLoop_preserves[of fs js "(n, c)" st P] assms(2,3) show ?thesis by simp
  qed
qed


lemma rectLoop_preserves:
  assumes "rectLoop s up endLevel sl minI maxI n c = Inr st" and "P c"
    and "\<And>c f c'. P c \<Longrightarrow> f \<in> \<Union> (set ` set (Levels s)) \<Longrightarrow> \<not> Compacting f \<Longrightarrow>
           \<not> (isIntraL0 c \<and> LargestSeqNum f \<ge> earliestUnflushedSeqNum c) \<Longrightarrow>
           addFile c f = Inr c' \<Longrightarrow> P c'"
  shows "P (snd st)"
  using assms
proof (induction s up endLevel sl minI maxI n c rule: rectLoop.induct)
  case (1 s up endLevel sl minI maxI n c)
  note step = "1.prems"(3)
  note unf = "1.prems"(1)[unfolded rectLoop.simps[of s up endLevel sl minI maxI n c]]
  show ?case
  proof (cases "sl = endLevel")
    case True
    with unf have "st = (n, c)" by simp
    with "1.prems"(2) show ?thesis by simp
  next
    case False
    with unf have inr: "\<not> (sl < 0 \<or> sl \<ge> int (length (Levels s)))"
      by (simp split: if_splits)
    then have "nat sl < length (Levels s)" by linarith
    then have lvin: "Levels s ! nat sl \<in> set (Levels s)" by (rule nth_mem)
    from unf False inr obtain r where
      r: "rectLevel (Levels s ! nat sl) minI maxI n c = Inr r"
      by (simp split: sum.splits)
    show ?thesis
    proof (cases r)
      case None
      with unf False inr r have "st = (n, c)" by simp
      with "1.prems"(2) show ?thesis by simp
    next
      case (Some q)
      obtain minI' maxI' n' c' where q: "q = (minI', maxI', n', c')" by (cases q) auto
      have rec: "rectLoop s up endLevel (if up then sl + 1 else sl - 1) minI' maxI' n' c' = Inr st"
        using unf False inr r Some q by simp
      have pc': "P c'"
      proof (rule rectLevel_preserves[where P = P, OF r[unfolded Some q] "1.prems"(2)])
        fix c f c'
        assume a: "P c" "f \<in> set (Levels s ! nat sl)" "\<not> Compacting f"
          "\<not> (isIntraL0 c \<and> earliestUnflushedSeqNum c \<le> LargestSeqNum f)" "addFile c f = Inr c'"
        from a(2) lvin have "f \<in> \<Union> (set ` set (Levels s))" by auto
        from step[OF a(1) this a(3,4,5)] show "P c'" .
      qed
      show ?thesis
        by (rule "1.IH"[OF False inr r Some q[symmetric] refl refl rec pc' step])
    qed
  qed
qed

lemma extendCandidateToRectangle_preserves:
  assumes "extendCandidateToRectangle s minII maxII c isBase = Inr r" and "P c"
    and "\<And>c a b. P c \<Longrightarrow> P (c\<lparr>preExtensionMinInterval := a, preExtensionMaxInterval := b\<rparr>)"
    and "\<And>c f c'. P c \<Longrightarrow> f \<in> \<Union> (set ` set (Levels s)) \<Longrightarrow> \<not> Compacting f \<Longrightarrow>
           \<not> (isIntraL0 c \<and> LargestSeqNum f \<ge> earliestUnflushedSeqNum c) \<Longrightarrow>
           addFile c f = Inr c' \<Longrightarrow> P c'"
  shows "P (snd r)"
proof -
  let ?c0 = "c\<lparr>preExtensionMinInterval := minIntervalIndex_lcf c,
                preExtensionMaxInterval := maxIntervalIndex_lcf c\<rparr>"
  from assms(1) obtain e sl a b st where
    st: "rectLoop s isBase e sl a b 0 ?c0 = Inr st" and r: "r = (fst st > 0, snd st)"
    unfolding extendCandidateToRectangle_def Let_def bindE_eq_Inr by auto
  have "P ?c0" by (rule assms(3)[OF assms(2)])
  from rectLoop_preserves[where P = P, OF st this assms(4)] r show ?thesis by simp
qed

lemma extendCandidateToRectangle_sdr:
  assumes "extendCandidateToRectangle s minII maxII c isBase = Inr r"
  shows "seedIntervalStackDepthReduction (snd r) = seedIntervalStackDepthReduction c"
  by (rule extendCandidateToRectangle_preserves[where
        P = "\<lambda>x. seedIntervalStackDepthReduction x = seedIntervalStackDepthReduction c", OF assms])
     (simp_all add: addFile_sdr)

lemma intraL0CompactionUsingSeed_Some:
  assumes "intraL0CompactionUsingSeed s f i eusn mcd = Inr (Some c)"
  obtains c0 iv slIndex l l' b where
    "addFile ((emptyCandidate (int (length (levelMetadata s))) (minIntervalIndex f) (maxIntervalIndex f))
               \<lparr>seedInterval := i, seedIntervalMaxLevel := int (length (Levels s)) - 1,
                isIntraL0 := True, earliestUnflushedSeqNum := eusn\<rparr>) f = Inr c0"
    "elemAt (orderedIntervals s) i = Inr iv"
    "findSeedIndex (files iv) f (int (length (files iv)) - 1) = Inr slIndex"
    "intraSeedLoop s eusn mcd (rev (take (nat slIndex + 1) (files iv))) c0 None = Inr (Some l)"
    "mcd \<le> seedIntervalStackDepthReduction l"
    "remarkFiles l = Inr l'"
    "extendCandidateToRectangle s (minIntervalIndex_lcf l') (maxIntervalIndex_lcf l') l' False = Inr (b, c)"
proof -
  from assms obtain c0 iv slIndex lc where
    a: "addFile ((emptyCandidate (int (length (levelMetadata s))) (minIntervalIndex f) (maxIntervalIndex f))
               \<lparr>seedInterval := i, seedIntervalMaxLevel := int (length (Levels s)) - 1,
                isIntraL0 := True, earliestUnflushedSeqNum := eusn\<rparr>) f = Inr c0"
    and b: "elemAt (orderedIntervals s) i = Inr iv"
    and c: "findSeedIndex (files iv) f (int (length (files iv)) - 1) = Inr slIndex"
    and d: "intraSeedLoop s eusn mcd (rev (take (nat slIndex + 1) (files iv))) c0 None = Inr lc"
    and e: "(case lc of None \<Rightarrow> Inr None
             | Some l \<Rightarrow> if seedIntervalStackDepthReduction l \<ge> mcd
                 then bindE (remarkFiles l) (\<lambda>l'.
                      bindE (extendCandidateToRectangle s (minIntervalIndex_lcf l')
                               (maxIntervalIndex_lcf l') l' False) (\<lambda>r. Inr (Some (snd r))))
                 else Inr None) = Inr (Some c)"
    unfolding intraL0CompactionUsingSeed_def bindE_eq_Inr emptyCandidate_def by auto
  from e obtain l where l: "lc = Some l" by (cases lc) auto
  from e l have g: "mcd \<le> seedIntervalStackDepthReduction l" by (simp split: if_splits)
  from e l g obtain l' r where h: "remarkFiles l = Inr l'"
    "extendCandidateToRectangle s (minIntervalIndex_lcf l') (maxIntervalIndex_lcf l') l' False = Inr r"
    "snd r = c"
    by (auto simp: bindE_eq_Inr)
  then have "extendCandidateToRectangle s (minIntervalIndex_lcf l') (maxIntervalIndex_lcf l') l' False = Inr (fst r, c)"
    by (cases r) simp
  with a b c d l g h(1) that show thesis by blast
qed

lemma intraL0CompactionUsingSeed_sdr:
  "intraL0CompactionUsingSeed s f i eusn mcd = Inr (Some c) \<Longrightarrow> mcd \<le> seedIntervalStackDepthReduction c"
  by (erule intraL0CompactionUsingSeed_Some)
     (auto dest!: extendCandidateToRectangle_sdr remarkFiles_sdr)

lemma pickIntraLoop_Cons_Some:
  assumes "pickIntraLoop s eusn mcd (si # rest) cons = Inr (Some c)"
  shows "(\<exists>cons'. pickIntraLoop s eusn mcd rest cons' = Inr (Some c)) \<or>
         (\<exists>iv f sdr cons'. elemAt (orderedIntervals s) (interval si) = Inr iv \<and>
                 seedSearch eusn (rev (files iv)) None (score si) cons = Inr (Some f, sdr, cons') \<and>
                 mcd \<le> sdr \<and> \<not> Compacting f \<and>
                 intraL0CompactionUsingSeed s f (index iv) eusn mcd = Inr (Some c))"
proof -
  from assms obtain iv where iv: "elemAt (orderedIntervals s) (interval si) = Inr iv"
    by (simp split: sum.splits)
  from assms iv obtain seen where seen: "elemAt cons (index iv) = Inr seen"
    by (simp split: sum.splits)
  show ?thesis
  proof (cases seen)
    case True
    with assms iv seen show ?thesis by auto
  next
    case ns: False
    from assms iv seen ns obtain fo sdr cons' where
      ss: "seedSearch eusn (rev (files iv)) None (score si) cons = Inr (fo, sdr, cons')"
      by (simp split: sum.splits prod.splits)
    show ?thesis
    proof (cases "sdr < mcd")
      case True
      with assms iv seen ns ss show ?thesis by auto
    next
      case deep: False
      from assms iv seen ns ss deep obtain f where f: "fo = Some f"
        by (cases fo) auto
      show ?thesis
      proof (cases "Compacting f")
        case True
        with assms iv seen ns ss deep f show ?thesis by auto
      next
        case nc: False
        from assms iv seen ns ss deep f nc obtain r where
          r: "intraL0CompactionUsingSeed s f (index iv) eusn mcd = Inr r"
          by (simp split: sum.splits)
        show ?thesis
        proof (cases r)
          case None
          with assms iv seen ns ss deep f nc r show ?thesis by auto
        next
          case (Some c')
          with assms iv seen ns ss deep f nc r have "c' = c" by simp
          with iv ss deep f nc r Some show ?thesis by auto
        qed
      qed
    qed
  qed
qed

lemma pickIntraLoop_sdr:
  "pickIntraLoop s eusn mcd sis considered = Inr (Some c) \<Longrightarrow> mcd \<le> seedIntervalStackDepthReduction c"
proof (induction sis arbitrary: considered)
  case Nil
  then show ?case by simp
next
  case (Cons si rest)
  from pickIntraLoop_Cons_Some[OF Cons.prems] show ?case
    using Cons.IH intraL0CompactionUsingSeed_sdr by blast
qed

text \<open>
  Claim C7. A candidate returned by \<open>PickBaseCompaction\<close> or by
  \<open>PickIntraL0Compaction\<close> with the parameter \<open>minCompactionDepth\<close> has a
  \<open>seedIntervalStackDepthReduction\<close> of at least \<open>minCompactionDepth\<close>, in every state of
  the engine: a seed whose last candidate stays below that depth yields no candidate, not a
  shallower one.
\<close>

theorem picked_depth:
  "(PickBaseCompaction s minCompactionDepth baseFiles = Inr (Some c) \<longrightarrow>
      minCompactionDepth \<le> seedIntervalStackDepthReduction c) \<and>
   (PickIntraL0Compaction s eusn minCompactionDepth = Inr (Some c') \<longrightarrow>
      minCompactionDepth \<le> seedIntervalStackDepthReduction c')"
  unfolding PickBaseCompaction_def PickIntraL0Compaction_def
  using pickBaseLoop_sdr pickIntraLoop_sdr by blast

theorem picked_depth_witness:
  "\<exists>s c c'.
     engineOf [l0File 1 ''a'' ''d'' 100 5 False False, l0File 2 ''a'' ''d'' 100 10 False False,
               l0File 3 ''a'' ''d'' 100 20 False False] 1048576 = Inr s \<and>
     PickBaseCompaction s 2 [] = Inr (Some c) \<and> seedIntervalStackDepthReduction c = 3 \<and>
     PickIntraL0Compaction s 15 2 = Inr (Some c') \<and> seedIntervalStackDepthReduction c' = 2 \<and>
     2 \<le> seedIntervalStackDepthReduction c \<and> 2 \<le> seedIntervalStackDepthReduction c'"
proof -
  let ?e = "engineOf [l0File 1 ''a'' ''d'' 100 5 False False, l0File 2 ''a'' ''d'' 100 10 False False,
               l0File 3 ''a'' ''d'' 100 20 False False] 1048576"
  have "bindE ?e (\<lambda>s. Inr (pickView seedIntervalStackDepthReduction (PickBaseCompaction s 2 []),
                          pickView seedIntervalStackDepthReduction (PickIntraL0Compaction s 15 2)))
        = Inr (Inr (Some 3), Inr (Some 2))"
    by code_simp
  then obtain s where s: "?e = Inr s"
    and b: "pickView seedIntervalStackDepthReduction (PickBaseCompaction s 2 []) = Inr (Some 3)"
    and i: "pickView seedIntervalStackDepthReduction (PickIntraL0Compaction s 15 2) = Inr (Some 2)"
    by (auto simp: bindE_eq_Inr)
  from pickView_Some[OF b] obtain c where c: "PickBaseCompaction s 2 [] = Inr (Some c)"
    "seedIntervalStackDepthReduction c = 3" by blast
  from pickView_Some[OF i] obtain c' where c': "PickIntraL0Compaction s 15 2 = Inr (Some c')"
    "seedIntervalStackDepthReduction c' = 2" by blast
  from picked_depth[of s 2 "[]" c 15 c'] s c c' show ?thesis by blast
qed

end
